theory Spec2Isabelle
  imports Main "HOL-Library.Sublist" "HOL-Library.Char_ord" "HOL-Library.List_Lexorder"
    "HOL-Library.Word"
begin

section \<open>Data model\<close>

text \<open>
  The script \<^verbatim>\<open>pieperseus.py\<close> drives external tools over a working tree. The model keeps
  what the script itself reads and writes: the file tree, the current directory, the five
  module globals, the log, what is printed on standard error and the list of external
  commands started so far.

  Paths are POSIX strings. The file tree is an association list from absolute paths to
  nodes; a container file (an apk or zip) holds its entries as a list of in-archive path
  and payload.
\<close>

type_synonym bytes = "8 word list"

type_synonym archive = "(string \<times> bytes) list"

datatype content = Raw bytes | Zip archive

datatype node = Dir | File content

type_synonym filesystem = "(string \<times> node) list"

datatype level = DEBUG | INFO | WARNING | ERROR

datatype cmd = Run "string list" | System string

datatype exn = FileNotFoundError | FileExistsError | NotADirectoryError | IsADirectoryError
  | ShutilError

text \<open>How a stage ends: it returns, calls \<^verbatim>\<open>exit(n)\<close>, or an exception escapes.\<close>

datatype outcome = Normal | Exit int | Raise exn

text \<open>
  The result of \<^verbatim>\<open>subprocess.run\<close>: the executable is missing (FileNotFoundError), or it
  ran and left a return code, its captured standard output and standard error, and the
  file tree as the tool left it.
\<close>

datatype proc = Missing | Ran int string string filesystem

record datetime =
  year :: nat
  month :: nat
  day :: nat
  hour :: nat
  minute :: nat
  second :: nat

record state =
  fs :: filesystem
  cwd :: string
  pkg :: string
  pkg_version :: string
  rootdir :: string
  skip :: bool
  quick_rebuild :: bool
  logs :: "(level \<times> string) list"
  err :: "string list"
  trace :: "cmd list"

text \<open>
  Everything outside the script: the platform, the external tools (any behaviour), the
  clock and the modification times. \<open>run\<close> and \<open>system\<close> take the command, the current
  directory and the file tree. \<open>mtime_utc\<close> stands for
  \<^verbatim>\<open>datetime.utcfromtimestamp(os.path.getmtime(p))\<close>, with \<open>None\<close> when either call raises.
\<close>

record env =
  os_name :: string
  cpu_count :: nat
  run :: "string list \<Rightarrow> string \<Rightarrow> filesystem \<Rightarrow> proc"
  system :: "string \<Rightarrow> string \<Rightarrow> filesystem \<Rightarrow> int \<times> filesystem"
  utcnow :: datetime
  mtime_utc :: "string \<Rightarrow> string \<Rightarrow> filesystem \<Rightarrow> datetime option"
  zip_bytes :: "archive \<Rightarrow> bytes"
  elapsed :: string

definition exit_status :: "outcome \<Rightarrow> int" where
  "exit_status r = (case r of Normal \<Rightarrow> 0 | Exit n \<Rightarrow> n | Raise e \<Rightarrow> 1)"

definition andthen ::
  "(state \<Rightarrow> outcome \<times> state) \<Rightarrow> (state \<Rightarrow> outcome \<times> state) \<Rightarrow> state \<Rightarrow> outcome \<times> state" where
  "andthen f g s = (case f s of (Normal, s') \<Rightarrow> g s' | (r, s') \<Rightarrow> (r, s'))"

definition logging :: "level \<Rightarrow> string \<Rightarrow> state \<Rightarrow> state" where
  "logging l m s = s\<lparr>logs := logs s @ [(l, m)]\<rparr>"

definition print_err :: "string \<Rightarrow> state \<Rightarrow> state" where
  "print_err m s = s\<lparr>err := err s @ [m]\<rparr>"

section \<open>Strings and numbers\<close>

definition digit_char :: "nat \<Rightarrow> char" where
  "digit_char n = ''0123456789'' ! (n mod 10)"

function str_nat :: "nat \<Rightarrow> string" where
  "str_nat n = (if n < 10 then [digit_char n] else str_nat (n div 10) @ [digit_char n])"
  by pat_completeness auto
termination
  by (relation "measure (\<lambda>n. n)") auto

definition str_int :: "int \<Rightarrow> string" where
  "str_int i = (if i < 0 then CHR ''-'' # str_nat (nat (- i)) else str_nat (nat i))"

definition zfill :: "nat \<Rightarrow> string \<Rightarrow> string" where
  "zfill w s = replicate (w - length s) CHR ''0'' @ s"

text \<open>\<^verbatim>\<open>strftime('%Y%m%d%H%M%S')\<close>: each field in decimal, zero-padded to its width.\<close>

definition strftime :: "datetime \<Rightarrow> string" where
  "strftime d = zfill 4 (str_nat (year d)) @ zfill 2 (str_nat (month d)) @
     zfill 2 (str_nat (day d)) @ zfill 2 (str_nat (hour d)) @
     zfill 2 (str_nat (minute d)) @ zfill 2 (str_nat (second d))"

text \<open>\<^verbatim>\<open>lib.removeprefix(p)\<close>.\<close>

definition removeprefix :: "string \<Rightarrow> string \<Rightarrow> string" where
  "removeprefix p s = (if prefix p s then drop (length p) s else s)"

section \<open>Paths and the file tree\<close>

text \<open>\<^verbatim>\<open>os.path.join\<close>, \<^verbatim>\<open>os.path.split\<close>, \<^verbatim>\<open>dirname\<close> and \<^verbatim>\<open>basename\<close> of posixpath.\<close>

definition join :: "string \<Rightarrow> string \<Rightarrow> string" where
  "join a b = (if b \<noteq> [] \<and> hd b = CHR ''/'' then b
     else if a = [] \<or> last a = CHR ''/'' then a @ b
     else a @ ''/'' @ b)"

definition path_split :: "string \<Rightarrow> string \<times> string" where
  "path_split p =
     (let tl' = rev (takeWhile (\<lambda>c. c \<noteq> CHR ''/'') (rev p));
          hd' = take (length p - length tl') p
      in (if hd' \<noteq> [] \<and> \<not> list_all (\<lambda>c. c = CHR ''/'') hd'
          then rev (dropWhile (\<lambda>c. c = CHR ''/'') (rev hd')) else hd', tl'))"

definition dirname :: "string \<Rightarrow> string" where
  "dirname p = fst (path_split p)"

definition basename :: "string \<Rightarrow> string" where
  "basename p = snd (path_split p)"

definition abspath :: "state \<Rightarrow> string \<Rightarrow> string" where
  "abspath s p = join (cwd s) p"

definition isfile :: "state \<Rightarrow> string \<Rightarrow> bool" where
  "isfile s p = (case map_of (fs s) (abspath s p) of Some (File c) \<Rightarrow> True | _ \<Rightarrow> False)"

definition isdir :: "state \<Rightarrow> string \<Rightarrow> bool" where
  "isdir s p = (map_of (fs s) (abspath s p) = Some Dir)"

definition fs_put :: "string \<Rightarrow> node \<Rightarrow> filesystem \<Rightarrow> filesystem" where
  "fs_put p n F = (p, n) # filter (\<lambda>e. fst e \<noteq> p) F"

definition fs_del :: "string \<Rightarrow> filesystem \<Rightarrow> filesystem" where
  "fs_del p F = filter (\<lambda>e. fst e \<noteq> p) F"

definition under :: "string \<Rightarrow> string \<Rightarrow> bool" where
  "under d k = (prefix (join d []) k \<and> k \<noteq> join d [])"

definition child_name :: "string \<Rightarrow> string \<Rightarrow> string option" where
  "child_name d k =
     (let n = drop (length (join d [])) k
      in if under d k \<and> CHR ''/'' \<notin> set n then Some n else None)"

text \<open>
  \<^verbatim>\<open>os.listdir\<close> as glob uses it: the names directly below a directory, and nothing when
  the path is not a directory.
\<close>

definition listdir :: "filesystem \<Rightarrow> string \<Rightarrow> string list" where
  "listdir F d = (if map_of F d = Some Dir
     then remdups (List.map_filter (child_name d) (map fst F)) else [])"

definition rekey :: "string \<Rightarrow> string \<Rightarrow> string \<Rightarrow> string" where
  "rekey a b k = (if k = a then b else if under a k then b @ drop (length a) k else k)"

definition rename_tree :: "string \<Rightarrow> string \<Rightarrow> filesystem \<Rightarrow> filesystem" where
  "rename_tree a b F = map (\<lambda>e. (rekey a b (fst e), snd e)) (filter (\<lambda>e. fst e \<noteq> b) F)"

text \<open>
  \<^verbatim>\<open>shutil.move(src, dst)\<close>: into \<open>dst\<close> when that is a directory (an error when the name
  is taken there), onto \<open>dst\<close> otherwise, replacing a file of that name; a missing source
  raises.
\<close>

definition move :: "string \<Rightarrow> string \<Rightarrow> state \<Rightarrow> outcome \<times> state" where
  "move src dst s =
     (let a = abspath s src; d = abspath s dst;
          real = (if isdir s dst then join d (basename src) else d)
      in if isdir s dst \<and> map_of (fs s) real \<noteq> None then (Raise ShutilError, s)
         else if map_of (fs s) a = None then (Raise FileNotFoundError, s)
         else (Normal, s\<lparr>fs := rename_tree a real (fs s)\<rparr>))"

definition remove :: "string \<Rightarrow> state \<Rightarrow> outcome \<times> state" where
  "remove p s = (case map_of (fs s) (abspath s p) of
       None \<Rightarrow> (Raise FileNotFoundError, s)
     | Some Dir \<Rightarrow> (Raise IsADirectoryError, s)
     | Some (File c) \<Rightarrow> (Normal, s\<lparr>fs := fs_del (abspath s p) (fs s)\<rparr>))"

definition rmtree :: "string \<Rightarrow> state \<Rightarrow> state" where
  "rmtree p s = s\<lparr>fs := filter (\<lambda>e. fst e \<noteq> abspath s p \<and> \<not> under (abspath s p) (fst e)) (fs s)\<rparr>"

definition mkdir :: "string \<Rightarrow> state \<Rightarrow> outcome \<times> state" where
  "mkdir p s =
     (if map_of (fs s) (abspath s p) \<noteq> None then (Raise FileExistsError, s)
      else if map_of (fs s) (dirname (abspath s p)) \<noteq> Some Dir then (Raise FileNotFoundError, s)
      else (Normal, s\<lparr>fs := fs_put (abspath s p) Dir (fs s)\<rparr>))"

definition chdir :: "string \<Rightarrow> state \<Rightarrow> outcome \<times> state" where
  "chdir p s =
     (if p = ''..'' then (Normal, s\<lparr>cwd := dirname (cwd s)\<rparr>)
      else case map_of (fs s) (abspath s p) of
          None \<Rightarrow> (Raise FileNotFoundError, s)
        | Some (File c) \<Rightarrow> (Raise NotADirectoryError, s)
        | Some Dir \<Rightarrow> (Normal, s\<lparr>cwd := abspath s p\<rparr>))"

section \<open>Globbing\<close>

text \<open>
  \<^verbatim>\<open>fnmatch\<close> for the patterns the script builds, where \<open>*\<close> is the only wildcard: \<open>*\<close>
  stands for any run of characters, every other character for itself.
\<close>

fun fnmatch :: "string \<Rightarrow> string \<Rightarrow> bool" where
  "fnmatch [] [] = True"
| "fnmatch (c # cs) [] = False"
| "fnmatch [] (p # ps) = (p = CHR ''*'' \<and> fnmatch [] ps)"
| "fnmatch (c # cs) (p # ps) =
     (if p = CHR ''*'' then fnmatch (c # cs) ps \<or> fnmatch cs (p # ps)
      else c = p \<and> fnmatch cs ps)"

definition ishidden :: "string \<Rightarrow> bool" where
  "ishidden p = (p \<noteq> [] \<and> hd p = CHR ''.'')"

definition glob1 :: "string list \<Rightarrow> string \<Rightarrow> string list" where
  "glob1 names pat =
     filter (\<lambda>n. fnmatch n pat)
       (if ishidden pat then names else filter (\<lambda>n. \<not> ishidden n) names)"

text \<open>
  \<^verbatim>\<open>glob.glob\<close> of a pattern whose directory part has no wildcard: the names of that
  directory (the current one when the pattern has no directory part) that match the
  last component, each joined to the directory part again.
\<close>

definition glob :: "state \<Rightarrow> string \<Rightarrow> string list" where
  "glob s pathname =
     (let d = dirname pathname; b = basename pathname
      in if d = [] then glob1 (listdir (fs s) (cwd s)) b
         else map (join d) (glob1 (listdir (fs s) (abspath s d)) b))"

section \<open>Helpers of the script\<close>

definition is_windows :: "env \<Rightarrow> bool" where
  "is_windows e = (os_name e \<in> set [''nt''])"

definition mkcd :: "string \<Rightarrow> state \<Rightarrow> outcome \<times> state" where
  "mkcd d s = (if \<not> isdir s d then andthen (mkdir d) (chdir d) s else chdir d s)"

definition executable_path :: "env \<Rightarrow> state \<Rightarrow> string \<Rightarrow> bool \<Rightarrow> string" where
  "executable_path e s x absolute =
     (let p = join (join (if absolute then rootdir s else []) ''bin'') x
      in if is_windows e then p @ ''.exe'' else p)"

text \<open>\<^verbatim>\<open>os.system\<close>: the command runs, its exit status is dropped.\<close>

definition os_system :: "env \<Rightarrow> string \<Rightarrow> state \<Rightarrow> state" where
  "os_system e c s = s\<lparr>fs := snd (system e c (cwd s) (fs s)), trace := trace s @ [System c]\<rparr>"

definition subprocess_run :: "env \<Rightarrow> string list \<Rightarrow> state \<Rightarrow> proc \<times> state" where
  "subprocess_run e argv s = (run e argv (cwd s) (fs s), s\<lparr>trace := trace s @ [Run argv]\<rparr>)"

definition bbox :: "env \<Rightarrow> string \<Rightarrow> state \<Rightarrow> state" where
  "bbox e c s =
     (let busybox = join (join (rootdir s) ''bin'') ''busybox'';
          busybox = (if is_windows e then busybox @ ''.exe'' else busybox)
      in os_system e (busybox @ '' '' @ c) (logging INFO (busybox @ '' '' @ c) s))"

section \<open>Version resolution\<close>

definition quote :: char where
  "quote = CHR 0x27"

definition version_key :: string where
  "version_key = ''versionName='' @ [quote]"

text \<open>
  The regular expression \<^verbatim>\<open>versionName='([^']+)'\<close> tried at the start of a text: the key,
  then the longest run of characters other than a quote, which must not be empty and must
  be followed by a quote. \<^verbatim>\<open>re.search\<close> takes the leftmost position where it matches.
\<close>

definition match_here :: "string \<Rightarrow> string option" where
  "match_here t =
     (if prefix version_key t then
        (let r = drop (length version_key) t; v = takeWhile (\<lambda>c. c \<noteq> quote) r
         in if v \<noteq> [] \<and> length v < length r then Some v else None)
      else None)"

fun search_versionName :: "string \<Rightarrow> string option" where
  "search_versionName [] = None"
| "search_versionName (c # cs) =
     (case match_here (c # cs) of Some v \<Rightarrow> Some v | None \<Rightarrow> search_versionName cs)"

definition version_candidates :: "state \<Rightarrow> string list" where
  "version_candidates s = sort (glob s (pkg s @ ''*.apk'') @ glob s ''*.apk'')"

definition mtime_fallback :: "env \<Rightarrow> string \<Rightarrow> state \<Rightarrow> outcome \<times> state" where
  "mtime_fallback e apk s =
     (case mtime_utc e apk (cwd s) (fs s) of
        Some d \<Rightarrow>
          (Normal, logging WARNING (''Using timestamp fallback version: '' @ strftime d)
             (s\<lparr>pkg_version := strftime d\<rparr>))
      | None \<Rightarrow>
          (Normal, logging WARNING (''Using UTC-now fallback version: '' @ strftime (utcnow e))
             (s\<lparr>pkg_version := strftime (utcnow e)\<rparr>)))"

definition get_version :: "env \<Rightarrow> state \<Rightarrow> outcome \<times> state" where
  "get_version e s0 =
     (let s = logging INFO ''getting version from apk file in current directory'' s0;
          candidates = version_candidates s
      in if candidates = [] then
           (Normal, (logging WARNING
              ''no apk found to extract version; falling back to timestamp'' s)
              \<lparr>pkg_version := strftime (utcnow e)\<rparr>)
         else
           (let apk = hd candidates;
                s1 = logging INFO (''Found apk for version extraction: '' @ apk) s
            in case subprocess_run e [''aapt'', ''dump'', ''badging'', apk] s1 of
                 (Missing, s2) \<Rightarrow> mtime_fallback e apk (logging DEBUG ''aapt not found'' s2)
               | (Ran rc out er F, s2) \<Rightarrow>
                   (if rc = 0 then
                      (case search_versionName out of
                         Some v \<Rightarrow>
                           (Normal, logging INFO (''Extracted versionName via aapt: '' @ v)
                              (s2\<lparr>fs := F, pkg_version := v\<rparr>))
                       | None \<Rightarrow> mtime_fallback e apk (s2\<lparr>fs := F\<rparr>))
                    else mtime_fallback e apk (s2\<lparr>fs := F\<rparr>))))"

section \<open>Native library build\<close>

definition ndk_cmd :: "env \<Rightarrow> bool \<Rightarrow> string list" where
  "ndk_cmd e do_clean =
     [''ndk-build'' @ (if is_windows e then ''.cmd'' else []),
      ''NDK_PROJECT_PATH=./src'',
      ''NDK_APPLICATION_MK=./src/Application.mk'',
      ''APP_BUILD_SCRIPT=./src/Android.mk'',
      ''APP_PLATFORM=android-21'',
      ''-j'' @ str_nat (cpu_count e)] @ (if do_clean then [''clean''] else [])"

definition build_perseus_lib :: "env \<Rightarrow> bool \<Rightarrow> state \<Rightarrow> outcome \<times> state" where
  "build_perseus_lib e do_clean s0 =
     (let s = logging INFO ((if do_clean then ''cleaning'' else ''building'') @ '' perseus libs'') s0
      in case chdir ''PerseusLib'' s of
           (Normal, s1) \<Rightarrow>
             (case subprocess_run e (ndk_cmd e do_clean) s1 of
                (Missing, s2) \<Rightarrow> (Raise FileNotFoundError, s2)
              | (Ran rc out er F, s2) \<Rightarrow>
                  (if rc \<noteq> 0 then
                     (Exit 1,
                      print_err er (print_err ''======== ndk-build stderr ========''
                        (print_err out (print_err ''======== ndk-build stdout ========''
                          (logging ERROR ''ndk-build failed'' (s2\<lparr>fs := F\<rparr>))))))
                   else chdir ''..'' (s2\<lparr>fs := F\<rparr>)))
         | (r, s1) \<Rightarrow> (r, s1))"

section \<open>Extraction\<close>

definition packages_dir :: "state \<Rightarrow> string" where
  "packages_dir s = join (rootdir s) ''packages''"

text \<open>The candidate list of \<^verbatim>\<open>extract_from_packages\<close>, as the script computes it.\<close>

definition package_candidates :: "state \<Rightarrow> string list" where
  "package_candidates s =
     (let candidates = sort (glob s (join (packages_dir s) (pkg s @ ''*'')))
      in if candidates = [] then
           sort (glob s (join (packages_dir s) ''*.zip'') @
                 glob s (join (packages_dir s) ''*.7z'') @
                 glob s (join (packages_dir s) ''*part*''))
         else candidates)"

fun commas :: "string list \<Rightarrow> string" where
  "commas [] = []"
| "commas [x] = x"
| "commas (x # y # ys) = x @ '', '' @ commas (y # ys)"

definition repr_list :: "string list \<Rightarrow> string" where
  "repr_list xs = ''['' @ commas (map (\<lambda>x. [quote] @ x @ [quote]) xs) @ '']''"

definition check_extracted :: "state \<Rightarrow> outcome \<times> state" where
  "check_extracted s =
     (if \<not> isfile s (pkg s @ ''.apk'') then
        (Exit 1, logging ERROR (''After extraction could not find '' @ pkg s @
           ''.apk in apk_build/ (extracted files: '' @ repr_list (listdir (fs s) (cwd s)) @ '')'') s)
      else (Normal, s))"

definition extract_with ::
  "env \<Rightarrow> string list \<Rightarrow> string \<Rightarrow> state \<Rightarrow> outcome \<times> state" where
  "extract_with e argv failure s =
     (case subprocess_run e argv s of
        (Missing, s1) \<Rightarrow> (Raise FileNotFoundError, s1)
      | (Ran rc out er F, s1) \<Rightarrow>
          (if rc \<noteq> 0 then (Exit 1, print_err out (logging ERROR failure (s1\<lparr>fs := F\<rparr>)))
           else check_extracted (s1\<lparr>fs := F\<rparr>)))"

definition extract_from_packages :: "env \<Rightarrow> state \<Rightarrow> outcome \<times> state" where
  "extract_from_packages e s0 =
     (if skip s0 \<and> isfile s0 (pkg s0 @ ''.apk'') then
        (Normal, logging INFO (pkg s0 @ ''.apk already exists, skipping'') s0)
      else
        (let s = logging INFO ''searching for package archives in packages/'' s0;
             candidates = package_candidates s
         in if candidates = [] then
              (Exit 1, logging ERROR
                 ''No package archives found in packages/; expected something like com.bilibili.AzurLane.zip or split archives.'' s)
            else
              (let archive = hd candidates;
                   s1 = logging INFO (''Using archive: '' @ archive) s;
                   sevenz = executable_path e s1 ''7zz'' True
               in if isfile s1 sevenz then
                    extract_with e [sevenz, ''x'', ''-y'', archive] ''7zz extraction failed''
                      (logging INFO (''extracting with '' @ sevenz) s1)
                  else
                    extract_with e [''unzip'', ''-o'', archive, ''-d'', ''.'']
                      ''unzip extraction failed''
                      (logging INFO ''7zz not found in bin/, falling back to system unzip'' s1))))"

section \<open>Decompiling, copying the libraries, patching\<close>

definition apktool :: "state \<Rightarrow> string" where
  "apktool s = ''java -jar '' @ join (join (rootdir s) ''bin'') ''apktool.jar''"

definition decompile_apk :: "env \<Rightarrow> state \<Rightarrow> outcome \<times> state" where
  "decompile_apk e s0 =
     (if skip s0 \<and> isdir s0 (pkg s0) then
        (Normal, logging INFO (pkg s0 @ ''.apk is already decompiled, skipping'') s0)
      else
        (let s = logging INFO (''decompiling '' @ pkg s0 @ ''.apk'') s0;
             s1 = (if isdir s (pkg s) then rmtree (pkg s) s else s)
         in (Normal, os_system e (apktool s1 @ '' -q -f d '' @ pkg s1 @ ''.apk'') s1)))"

definition copy_perseus_libs :: "env \<Rightarrow> state \<Rightarrow> outcome \<times> state" where
  "copy_perseus_libs e s =
     (Normal, bbox e (''sh -c '' @ [CHR 0x22] @ ''cp -r ../PerseusLib/src/libs/* '' @ pkg s @
          ''/lib'' @ [CHR 0x22])
        (logging INFO ''copying Perseus libs'' s))"

definition patch :: "env \<Rightarrow> state \<Rightarrow> outcome \<times> state" where
  "patch e s =
     (Normal, bbox e (''sh '' @ join (join (rootdir s) ''scripts'') ''patch.sh'')
        (logging INFO ''patching decompiled sources'' s))"

section \<open>Rebuilding\<close>

definition abis :: "string list" where
  "abis = [''arm64-v8a'', ''x86_64'', ''x86'']"

definition libs :: "state \<Rightarrow> string list" where
  "libs s = map (\<lambda>arch. pkg s @ ''/lib/'' @ arch @ ''/libPerseus.so'') abis"

definition libs_renamed :: "state \<Rightarrow> string list" where
  "libs_renamed s = map (removeprefix (pkg s @ ''/'')) (libs s)"

text \<open>\<^verbatim>\<open>list(itertools.chain.from_iterable(zip(xs, ys)))\<close>.\<close>

definition chain_zip :: "'a list \<Rightarrow> 'a list \<Rightarrow> 'a list" where
  "chain_zip xs ys = concat (map (\<lambda>p. [fst p, snd p]) (zip xs ys))"

definition newpkg :: "state \<Rightarrow> string" where
  "newpkg s = pkg s @ ''-'' @ pkg_version s @ ''.patched.apk''"

definition newzip :: "state \<Rightarrow> string" where
  "newzip s = newpkg s @ ''.zip''"

text \<open>
  One archive-tool call of the quick path: the call, then the log line with its return
  code. The return code goes nowhere else.
\<close>

definition run_logged :: "env \<Rightarrow> string list \<Rightarrow> string \<Rightarrow> state \<Rightarrow> outcome \<times> state" where
  "run_logged e argv what s =
     (case subprocess_run e argv s of
        (Missing, s1) \<Rightarrow> (Raise FileNotFoundError, s1)
      | (Ran rc out er F, s1) \<Rightarrow>
          (Normal, logging INFO (what @ '', ret='' @ str_int rc) (s1\<lparr>fs := F\<rparr>)))"

definition delete_cmd :: "env \<Rightarrow> state \<Rightarrow> string list" where
  "delete_cmd e s = [executable_path e s ''7zz'' True, ''-y'', ''d'', newzip s] @ libs_renamed s"

definition add_cmd :: "env \<Rightarrow> state \<Rightarrow> string list" where
  "add_cmd e s = [executable_path e s ''7zz'' True, ''-y'', ''a'', newzip s] @ libs s"

definition rename_cmd :: "env \<Rightarrow> state \<Rightarrow> string list" where
  "rename_cmd e s = [executable_path e s ''7zz'' True, ''-y'', ''rn'', newzip s] @
     chain_zip (libs s) (libs_renamed s)"

definition apktool_build_cmd :: "state \<Rightarrow> string" where
  "apktool_build_cmd s = apktool s @ '' -q -f b '' @ pkg s @ '' -o '' @ newpkg s"

definition rebuild :: "env \<Rightarrow> state \<Rightarrow> outcome \<times> state" where
  "rebuild e s =
     (if quick_rebuild s \<and> isfile s (newpkg s) then
        andthen (move (newpkg s) (newzip s))
         (andthen (run_logged e (delete_cmd e s) ''deleting libs in archive'')
           (andthen (run_logged e (add_cmd e s) ''adding libs to archive'')
             (andthen (run_logged e (rename_cmd e s) ''renaming libs in archive'')
               (move (newzip s) (newpkg s)))))
         (logging INFO (''rebuiling '' @ pkg s @ ''.apk quickly'') s)
      else
        (Normal, os_system e (apktool_build_cmd s)
           (logging INFO (''rebuilding '' @ pkg s @ ''.apk with apktool'') s)))"

section \<open>Signing and the library archive\<close>

definition zipalign_cmd :: "env \<Rightarrow> state \<Rightarrow> string" where
  "zipalign_cmd e s = ''zipalign'' @ (if is_windows e then ''.exe'' else []) @ '' -pf 4 '' @
     newpkg s @ ''.unsigned '' @ newpkg s"

definition apksigner_cmd :: "env \<Rightarrow> state \<Rightarrow> string" where
  "apksigner_cmd e s = ''apksigner'' @ (if is_windows e then ''.bat'' else []) @
     '' sign --key '' @ join (join (rootdir s) ''signing'') ''testkey.pk8'' @
     '' --cert '' @ join (join (rootdir s) ''signing'') ''testkey.x509.pem'' @ '' '' @ newpkg s"

definition sign_apk :: "env \<Rightarrow> state \<Rightarrow> outcome \<times> state" where
  "sign_apk e s =
     andthen (move (newpkg s) (newpkg s @ ''.unsigned''))
      (andthen (\<lambda>t. (Normal, os_system e (zipalign_cmd e s) (logging INFO ''zipaligning apk'' t)))
        (andthen (remove (newpkg s @ ''.unsigned''))
          (andthen (\<lambda>t. (Normal, os_system e (apksigner_cmd e s) (logging INFO ''signing apk'' t)))
            (remove (newpkg s @ ''.idsig'')))))
      s"

definition libs_dir :: "state \<Rightarrow> string" where
  "libs_dir s = join (join (join (rootdir s) ''PerseusLib'') ''src'') ''libs''"

definition file_bytes :: "env \<Rightarrow> content \<Rightarrow> bytes" where
  "file_bytes e c = (case c of Raw b \<Rightarrow> b | Zip a \<Rightarrow> zip_bytes e a)"

text \<open>The files below a directory, each with its path relative to it and its bytes.\<close>

definition walk_files :: "env \<Rightarrow> filesystem \<Rightarrow> string \<Rightarrow> archive" where
  "walk_files e F d =
     List.map_filter (\<lambda>en. case snd en of
          File c \<Rightarrow> (if under d (fst en)
                     then Some (drop (length (join d [])) (fst en), file_bytes e c) else None)
        | Dir \<Rightarrow> None) F"

definition compress_libs :: "env \<Rightarrow> state \<Rightarrow> outcome \<times> state" where
  "compress_libs e s0 =
     (let s = logging INFO ''compressing Perseus libs into apk_build'' s0;
          out_zip = join (cwd s) ''perseus_libs.zip''
      in if \<not> isdir s (libs_dir s) then
           (Normal, logging WARNING (''Perseus libs dir not found: '' @ libs_dir s @
              '', skipping compress'') s)
         else if isdir s out_zip then (Raise IsADirectoryError, s)
         else (Normal, logging INFO (''Written libs archive: '' @ out_zip)
                 (s\<lparr>fs := fs_put out_zip (File (Zip (walk_files e (fs s) (libs_dir s)))) (fs s)\<rparr>)))"

section \<open>The pipeline\<close>

definition finish :: "env \<Rightarrow> state \<Rightarrow> outcome \<times> state" where
  "finish e s =
     (Normal, logging INFO (''done in '' @ elapsed e @ '' seconds'')
        (logging INFO (''built apk in '' @ join (join (rootdir s) ''apk_build'') (newpkg s)) s))"

definition main :: "env \<Rightarrow> bool \<Rightarrow> bool \<Rightarrow> state \<Rightarrow> outcome \<times> state" where
  "main e skip_arg quick_arg s0 =
     andthen (build_perseus_lib e False)
      (andthen (mkcd ''apk_build'')
        (andthen (extract_from_packages e)
          (andthen (get_version e)
            (andthen (decompile_apk e)
              (andthen (copy_perseus_libs e)
                (andthen (patch e)
                  (andthen (rebuild e)
                    (andthen (sign_apk e)
                      (andthen (compress_libs e) (finish e))))))))))
      (s0\<lparr>skip := skip_arg, quick_rebuild := quick_arg\<rparr>)"

text \<open>
  The stages of \<^verbatim>\<open>main\<close> that come before \<^verbatim>\<open>rebuild\<close> and those that come after it, to
  speak about a run that has reached the rebuild.
\<close>

definition before_rebuild :: "env \<Rightarrow> state \<Rightarrow> outcome \<times> state" where
  "before_rebuild e =
     andthen (build_perseus_lib e False)
      (andthen (mkcd ''apk_build'')
        (andthen (extract_from_packages e)
          (andthen (get_version e)
            (andthen (decompile_apk e)
              (andthen (copy_perseus_libs e) (patch e))))))"

definition after_rebuild :: "env \<Rightarrow> state \<Rightarrow> outcome \<times> state" where
  "after_rebuild e = andthen (sign_apk e) (andthen (compress_libs e) (finish e))"

text \<open>The state when the module has been loaded in directory \<open>d\<close> of file tree \<open>F\<close>.\<close>

definition initial_state :: "filesystem \<Rightarrow> string \<Rightarrow> state" where
  "initial_state F d =
     \<lparr>fs = F, cwd = d, pkg = ''com.bilibili.AzurLane'', pkg_version = ''0'', rootdir = d,
      skip = False, quick_rebuild = False, logs = [], err = [], trace = []\<rparr>"

section \<open>Vocabulary of the properties\<close>

text \<open>
  The values a \<^verbatim>\<open>datetime\<close> object can hold, and what makes a string a timestamp of the
  form \<^verbatim>\<open>YYYYMMDDHHMMSS\<close>: fourteen decimal digits whose month, day, hour, minute and second
  fields are in range.
\<close>

definition valid_datetime :: "datetime \<Rightarrow> bool" where
  "valid_datetime d = (1 \<le> year d \<and> year d \<le> 9999 \<and> 1 \<le> month d \<and> month d \<le> 12 \<and>
     1 \<le> day d \<and> day d \<le> 31 \<and> hour d < 24 \<and> minute d < 60 \<and> second d < 60)"

definition is_digit :: "char \<Rightarrow> bool" where
  "is_digit c = (c \<in> set ''0123456789'')"

definition digit_val :: "char \<Rightarrow> nat" where
  "digit_val c = of_char c - 48"

definition num :: "string \<Rightarrow> nat" where
  "num v = foldl (\<lambda>a c. 10 * a + digit_val c) 0 v"

definition field :: "nat \<Rightarrow> nat \<Rightarrow> string \<Rightarrow> nat" where
  "field i n v = num (take n (drop i v))"

definition valid_timestamp :: "string \<Rightarrow> bool" where
  "valid_timestamp v = (length v = 14 \<and> list_all is_digit v \<and>
     1 \<le> field 4 2 v \<and> field 4 2 v \<le> 12 \<and> 1 \<le> field 6 2 v \<and> field 6 2 v \<le> 31 \<and>
     field 8 2 v < 24 \<and> field 10 2 v < 60 \<and> field 12 2 v < 60)"


section \<open>Example runs\<close>

text \<open>
  A project tree in \<^verbatim>\<open>/w\<close> after an earlier run: the package archives, the extracted apk
  next to an unrelated one, and the decompiled tree.
\<close>

definition ex_tree :: filesystem where
  "ex_tree =
     [(''/w'', Dir), (''/w/PerseusLib'', Dir), (''/w/packages'', Dir),
      (''/w/packages/A.zip'', File (Raw [1])),
      (''/w/packages/com.bilibili.AzurLane.zip'', File (Raw [2])),
      (''/w/packages/B.7z'', File (Raw [3])),
      (''/w/apk_build'', Dir),
      (''/w/apk_build/base.apk'', File (Raw [4])),
      (''/w/apk_build/com.bilibili.AzurLane.apk'', File (Raw [5])),
      (''/w/apk_build/com.bilibili.AzurLane'', Dir)]"

definition ex_clock :: datetime where
  "ex_clock = \<lparr>year = 2024, month = 3, day = 9, hour = 7, minute = 5, second = 1\<rparr>"

text \<open>Tools that all succeed and change nothing.\<close>

definition ex_env :: env where
  "ex_env = \<lparr>os_name = ''posix'', cpu_count = 8, run = (\<lambda>argv d F. Ran 0 [] [] F),
     system = (\<lambda>c d F. (0, F)), utcnow = ex_clock, mtime_utc = (\<lambda>p d F. None),
     zip_bytes = (\<lambda>a. []), elapsed = ''1.0''\<rparr>"

text \<open>The same, with a native build that fails.\<close>

definition ex_env_ndk_fails :: env where
  "ex_env_ndk_fails = ex_env\<lparr>run := (\<lambda>argv d F. Ran 2 ''compiling'' ''error: no rule'' F)\<rparr>"

definition ex_start :: state where
  "ex_start = initial_state ex_tree ''/w''"

text \<open>The state inside \<^verbatim>\<open>apk_build\<close>, with both flags at their default.\<close>

definition ex_built :: state where
  "ex_built = ex_start\<lparr>cwd := ''/w/apk_build'', skip := True, quick_rebuild := True\<rparr>"

text \<open>
  An apk of an earlier run, and the tree that holds it as the patched apk of version
  \<open>0\<close> together with freshly built libraries in the decompiled tree.
\<close>

definition ex_apk :: archive where
  "ex_apk =
     [(''AndroidManifest.xml'', [1, 2, 3]),
      (''lib/arm64-v8a/libPerseus.so'', [7]),
      (''lib/x86_64/libPerseus.so'', [8]),
      (''lib/x86/libPerseus.so'', [9]),
      (''classes.dex'', [4, 5])]"

definition ex_quick_tree :: filesystem where
  "ex_quick_tree = ex_tree @
     [(''/w/apk_build/com.bilibili.AzurLane-0.patched.apk'', File (Zip ex_apk)),
      (''/w/apk_build/com.bilibili.AzurLane/lib/arm64-v8a/libPerseus.so'', File (Raw [17])),
      (''/w/apk_build/com.bilibili.AzurLane/lib/x86_64/libPerseus.so'', File (Raw [18])),
      (''/w/apk_build/com.bilibili.AzurLane/lib/x86/libPerseus.so'', File (Raw [19]))]"

definition ex_quick :: state where
  "ex_quick = ex_built\<lparr>fs := ex_quick_tree\<rparr>"








text \<open>
  Output of the badging tool for an apk with version name \<^verbatim>\<open>1.2.3\<close>, and for one whose
  version name is empty; tools that print them, with a modification time at hand.
\<close>

definition ex_badging_pre :: string where
  "ex_badging_pre = ''package: name='' @ [quote] @ ''com.bilibili.AzurLane'' @ [quote] @
     '' versionCode='' @ [quote] @ ''88'' @ [quote] @ '' ''"

definition ex_badging_post :: string where
  "ex_badging_post = '' platformBuildVersionName='' @ [quote] @ ''13'' @ [quote]"

definition ex_badging :: string where
  "ex_badging = ex_badging_pre @ version_key @ ''1.2.3'' @ quote # ex_badging_post"

definition ex_badging_empty :: string where
  "ex_badging_empty = ex_badging_pre @ version_key @ [] @ quote # ex_badging_post"

definition ex_mtime :: datetime where
  "ex_mtime = \<lparr>year = 2023, month = 11, day = 30, hour = 12, minute = 0, second = 0\<rparr>"

definition ex_env_aapt :: env where
  "ex_env_aapt = ex_env\<lparr>run := (\<lambda>argv d F. Ran 0 ex_badging [] F),
     mtime_utc := (\<lambda>p d F. Some ex_mtime)\<rparr>"

definition ex_env_aapt_empty :: env where
  "ex_env_aapt_empty = ex_env\<lparr>run := (\<lambda>argv d F. Ran 0 ex_badging_empty [] F),
     mtime_utc := (\<lambda>p d F. Some ex_mtime)\<rparr>"

text \<open>
  A project that was built before for version \<^verbatim>\<open>1.2.3\<close>: the patched apk of that version is
  in \<^verbatim>\<open>apk_build\<close>, next to freshly built libraries in the decompiled tree. The tools all
  work and change nothing, except that every call of the bundled archive tool ends with
  return code 2.
\<close>

definition ex_rerun_tree :: filesystem where
  "ex_rerun_tree =
     [(''/w'', Dir), (''/w/PerseusLib'', Dir), (''/w/apk_build'', Dir),
      (''/w/apk_build/com.bilibili.AzurLane.apk'', File (Raw [5])),
      (''/w/apk_build/com.bilibili.AzurLane'', Dir),
      (''/w/apk_build/com.bilibili.AzurLane-1.2.3.patched.apk'', File (Zip ex_apk)),
      (''/w/apk_build/com.bilibili.AzurLane/lib/arm64-v8a/libPerseus.so'', File (Raw [17])),
      (''/w/apk_build/com.bilibili.AzurLane/lib/x86_64/libPerseus.so'', File (Raw [18])),
      (''/w/apk_build/com.bilibili.AzurLane/lib/x86/libPerseus.so'', File (Raw [19]))]"

definition ex_rerun_start :: state where
  "ex_rerun_start = initial_state ex_rerun_tree ''/w''"

definition ex_env_7zz_fails :: env where
  "ex_env_7zz_fails = ex_env\<lparr>run := (\<lambda>argv d F.
     if take 1 argv = [''/w/bin/7zz''] then Ran 2 [] [] F else Ran 0 ex_badging [] F)\<rparr>"

text \<open>The state in which the default run over that project reaches the rebuild.\<close>

definition ex_cp_cmd :: string where
  "ex_cp_cmd = ''/w/bin/busybox sh -c '' @ [CHR 0x22] @
     ''cp -r ../PerseusLib/src/libs/* com.bilibili.AzurLane/lib'' @ [CHR 0x22]"

definition ex_reached :: state where
  "ex_reached = ex_rerun_start
     \<lparr>cwd := ''/w/apk_build'', pkg_version := ''1.2.3'', skip := True, quick_rebuild := True,
      logs :=
        [(INFO, ''building perseus libs''),
         (INFO, ''com.bilibili.AzurLane.apk already exists, skipping''),
         (INFO, ''getting version from apk file in current directory''),
         (INFO, ''Found apk for version extraction: com.bilibili.AzurLane-1.2.3.patched.apk''),
         (INFO, ''Extracted versionName via aapt: 1.2.3''),
         (INFO, ''com.bilibili.AzurLane.apk is already decompiled, skipping''),
         (INFO, ''copying Perseus libs''),
         (INFO, ex_cp_cmd),
         (INFO, ''patching decompiled sources''),
         (INFO, ''/w/bin/busybox sh /w/scripts/patch.sh'')],
      trace :=
        [Run [''ndk-build'', ''NDK_PROJECT_PATH=./src'', ''NDK_APPLICATION_MK=./src/Application.mk'',
              ''APP_BUILD_SCRIPT=./src/Android.mk'', ''APP_PLATFORM=android-21'', ''-j8''],
         Run [''aapt'', ''dump'', ''badging'', ''com.bilibili.AzurLane-1.2.3.patched.apk''],
         System ex_cp_cmd,
         System ''/w/bin/busybox sh /w/scripts/patch.sh'']\<rparr>"

section \<open>Basic facts\<close>

lemma logging_sel [simp]:
  "fs (logging l m s) = fs s" "cwd (logging l m s) = cwd s" "pkg (logging l m s) = pkg s"
  "pkg_version (logging l m s) = pkg_version s" "rootdir (logging l m s) = rootdir s"
  "skip (logging l m s) = skip s" "quick_rebuild (logging l m s) = quick_rebuild s"
  "logs (logging l m s) = logs s @ [(l, m)]" "err (logging l m s) = err s"
  "trace (logging l m s) = trace s"
  by (simp_all add: logging_def)

lemma abspath_logging [simp]: "abspath (logging l m s) p = abspath s p"
  by (simp add: abspath_def)

lemma query_logging [simp]:
  "isfile (logging l m s) p = isfile s p" "isdir (logging l m s) p = isdir s p"
  "glob (logging l m s) p = glob s p" "newpkg (logging l m s) = newpkg s"
  "newzip (logging l m s) = newzip s"
  by (simp_all add: isfile_def isdir_def glob_def newpkg_def newzip_def Let_def)

lemma andthen_Normal [simp]: "f s = (Normal, s') \<Longrightarrow> andthen f g s = g s'"
  by (simp add: andthen_def)

lemma andthen_Exit [simp]: "f s = (Exit n, s') \<Longrightarrow> andthen f g s = (Exit n, s')"
  by (simp add: andthen_def)

lemma andthen_Raise [simp]: "f s = (Raise x, s') \<Longrightarrow> andthen f g s = (Raise x, s')"
  by (simp add: andthen_def)

section \<open>Decimal printing and timestamps\<close>

declare str_nat.simps [simp del]

lemma digit_cases: "k < (10::nat) \<Longrightarrow> k = 0 \<or> k = 1 \<or> k = 2 \<or> k = 3 \<or> k = 4 \<or> k = 5 \<or> k = 6 \<or> k = 7 \<or> k = 8 \<or> k = 9"
  by arith

lemma digit_char_is_digit [simp]: "is_digit (digit_char n)"
proof -
  have "n mod 10 < 10" by simp
  from digit_cases [OF this] show ?thesis
    by (auto simp: digit_char_def is_digit_def)
qed

lemma digit_val_digit_char [simp]: "digit_val (digit_char n) = n mod 10"
proof -
  have "n mod 10 < 10" by simp
  from digit_cases [OF this] show ?thesis
    by (auto simp: digit_char_def digit_val_def)
qed

lemma digit_char_0 [simp]: "digit_char 0 = CHR ''0''"
  by (simp add: digit_char_def)

lemma str_nat_1: "n < 10 \<Longrightarrow> str_nat n = [digit_char n]"
  by (subst str_nat.simps) simp

lemma str_nat_2: "10 \<le> n \<Longrightarrow> n < 100 \<Longrightarrow> str_nat n = [digit_char (n div 10), digit_char n]"
  by (subst str_nat.simps) (simp add: str_nat_1)

lemma str_nat_3: "100 \<le> n \<Longrightarrow> n < 1000 \<Longrightarrow>
    str_nat n = [digit_char (n div 100), digit_char (n div 10), digit_char n]"
  by (subst str_nat.simps) (simp add: str_nat_2 div_mult2_eq[symmetric])

lemma str_nat_4: "1000 \<le> n \<Longrightarrow> n < 10000 \<Longrightarrow>
    str_nat n = [digit_char (n div 1000), digit_char (n div 100), digit_char (n div 10), digit_char n]"
  by (subst str_nat.simps) (simp add: str_nat_3 div_mult2_eq[symmetric])

lemma zero_digit: "n < k \<Longrightarrow> digit_char (n div k) = CHR ''0''"
  by (simp add: digit_char_def)

lemma zfill2: "n < 100 \<Longrightarrow> zfill 2 (str_nat n) = [digit_char (n div 10), digit_char n]"
  by (cases "n < 10") (simp_all add: zfill_def str_nat_1 str_nat_2 zero_digit)

lemma zfill4: "n < 10000 \<Longrightarrow>
    zfill 4 (str_nat n) = [digit_char (n div 1000), digit_char (n div 100), digit_char (n div 10), digit_char n]"
proof -
  assume n: "n < 10000"
  consider "n < 10" | "10 \<le> n" "n < 100" | "100 \<le> n" "n < 1000" | "1000 \<le> n"
    by linarith
  then show ?thesis
  proof cases
    case 1 then show ?thesis by (simp add: zfill_def str_nat_1 zero_digit numeral_3_eq_3 numeral_2_eq_2)
  next
    case 2 then show ?thesis by (simp add: zfill_def str_nat_2 zero_digit numeral_2_eq_2)
  next
    case 3 then show ?thesis by (simp add: zfill_def str_nat_3 zero_digit)
  next
    case 4 with n show ?thesis by (simp add: zfill_def str_nat_4)
  qed
qed


lemma strftime_shape:
  assumes "valid_datetime d"
  shows "strftime d =
    [digit_char (year d div 1000), digit_char (year d div 100), digit_char (year d div 10),
     digit_char (year d), digit_char (month d div 10), digit_char (month d),
     digit_char (day d div 10), digit_char (day d), digit_char (hour d div 10),
     digit_char (hour d), digit_char (minute d div 10), digit_char (minute d),
     digit_char (second d div 10), digit_char (second d)]"
proof -
  have "year d < 10000" "month d < 100" "day d < 100" "hour d < 100" "minute d < 100"
    "second d < 100"
    using assms by (simp_all add: valid_datetime_def)
  then show ?thesis
    by (simp only: strftime_def zfill2 zfill4 append.simps)
qed


lemma two_digits: "n < 100 \<Longrightarrow> 10 * (n div 10 mod 10) + n mod 10 = (n::nat)"
proof -
  assume "n < 100"
  then have "n div 10 < 10" by simp
  then have "n div 10 mod 10 = n div 10" by simp
  then show ?thesis by simp
qed

lemma num_two: "n < 100 \<Longrightarrow> num [digit_char (n div 10), digit_char n] = n"
  by (simp add: num_def two_digits)

lemma strftime_valid:
  assumes "valid_datetime d"
  shows "valid_timestamp (strftime d)"
proof -
  let ?v = "strftime d"
  have b: "month d < 100" "day d < 100" "hour d < 100" "minute d < 100" "second d < 100"
    using assms by (simp_all add: valid_datetime_def)
  note sh = strftime_shape [OF assms]
  have len: "length ?v = 14" by (simp add: sh)
  have dig: "list_all is_digit ?v" by (simp add: sh)
  have f1: "field 4 2 ?v = month d" by (simp add: sh field_def num_two b)
  have f2: "field 6 2 ?v = day d" by (simp add: sh field_def num_two b)
  have f3: "field 8 2 ?v = hour d" by (simp add: sh field_def num_two b)
  have f4: "field 10 2 ?v = minute d" by (simp add: sh field_def num_two b)
  have f5: "field 12 2 ?v = second d" by (simp add: sh field_def num_two b)
  show ?thesis
    unfolding valid_timestamp_def f1 f2 f3 f4 f5
    using assms len dig by (simp add: valid_datetime_def)
qed

section \<open>The native build is fatal\<close>

text \<open>
  Claim C4. When the native-library build tool ends with a non-zero status, the whole run
  ends there with exit status 1: the state is the one the build stage left, so no later
  stage has run, and the tool's captured standard output and standard error are printed
  on standard error as they came.
\<close>

theorem build_failure_halts:
  assumes "map_of (fs s0) (join (cwd s0) ''PerseusLib'') = Some Dir"
    and "run e (ndk_cmd e False) (join (cwd s0) ''PerseusLib'') (fs s0) = Ran rc out er F"
    and "rc \<noteq> 0"
  shows "main e a b s0 =
           (Exit 1, s0\<lparr>fs := F, cwd := join (cwd s0) ''PerseusLib'', skip := a, quick_rebuild := b,
              logs := logs s0 @ [(INFO, ''building perseus libs''), (ERROR, ''ndk-build failed'')],
              err := err s0 @ [''======== ndk-build stdout ========'', out,
                               ''======== ndk-build stderr ========'', er],
              trace := trace s0 @ [Run (ndk_cmd e False)]\<rparr>)
         \<and> exit_status (fst (main e a b s0)) = 1"
proof -
  have "build_perseus_lib e False (s0\<lparr>skip := a, quick_rebuild := b\<rparr>) =
          (Exit 1, s0\<lparr>fs := F, cwd := join (cwd s0) ''PerseusLib'', skip := a, quick_rebuild := b,
              logs := logs s0 @ [(INFO, ''building perseus libs''), (ERROR, ''ndk-build failed'')],
              err := err s0 @ [''======== ndk-build stdout ========'', out,
                               ''======== ndk-build stderr ========'', er],
              trace := trace s0 @ [Run (ndk_cmd e False)]\<rparr>)"
    using assms
    by (simp add: build_perseus_lib_def chdir_def abspath_def subprocess_run_def
        logging_def print_err_def)
  then show ?thesis
    by (simp add: main_def exit_status_def)
qed

theorem build_failure_halts_witness:
  "fst (main ex_env_ndk_fails True True ex_start) = Exit 1
   \<and> err (snd (main ex_env_ndk_fails True True ex_start)) =
       [''======== ndk-build stdout ========'', ''compiling'',
        ''======== ndk-build stderr ========'', ''error: no rule'']
   \<and> trace (snd (main ex_env_ndk_fails True True ex_start)) =
       [Run (ndk_cmd ex_env_ndk_fails False)]"
proof -
  have h1: "map_of (fs ex_start) (join (cwd ex_start) ''PerseusLib'') = Some Dir"
    by (simp add: ex_start_def initial_state_def ex_tree_def join_def)
  have h2: "run ex_env_ndk_fails (ndk_cmd ex_env_ndk_fails False)
              (join (cwd ex_start) ''PerseusLib'') (fs ex_start)
            = Ran 2 ''compiling'' ''error: no rule'' ex_tree"
    by (simp add: ex_env_ndk_fails_def ex_start_def initial_state_def)
  have h3: "(2::int) \<noteq> 0" by simp
  show ?thesis
    using build_failure_halts [OF h1 h2 h3, of True True]
    by (simp add: ex_start_def initial_state_def)
qed

section \<open>Skipping the extraction\<close>

text \<open>
  Claim C8. With the skip flag set and the apk already in the working directory, a call
  of the extraction returns at once: it starts no tool, leaves the file tree as it is and
  looks at neither the packages nor the apk's contents; only a log line is added.
\<close>

theorem extract_skip_is_noop:
  assumes "skip s" and "isfile s (pkg s @ ''.apk'')"
  shows "extract_from_packages e s =
           (Normal, s\<lparr>logs := logs s @ [(INFO, pkg s @ ''.apk already exists, skipping'')]\<rparr>)
         \<and> fs (snd (extract_from_packages e s)) = fs s
         \<and> trace (snd (extract_from_packages e s)) = trace s"
  using assms by (simp add: extract_from_packages_def logging_def)

theorem extract_skip_is_noop_witness:
  "skip ex_built \<and> isfile ex_built (pkg ex_built @ ''.apk'')
   \<and> fst (extract_from_packages ex_env ex_built) = Normal
   \<and> fs (snd (extract_from_packages ex_env ex_built)) = ex_tree
   \<and> trace (snd (extract_from_packages ex_env ex_built)) = []"
proof -
  have h1: "skip ex_built"
    by (simp add: ex_built_def)
  have h2: "isfile ex_built (pkg ex_built @ ''.apk'')"
    by (simp add: ex_built_def ex_start_def initial_state_def ex_tree_def isfile_def
        abspath_def join_def)
  show ?thesis
    using h1 h2 extract_skip_is_noop [OF h1 h2, of ex_env]
    by (simp add: ex_built_def ex_start_def initial_state_def)
qed

section \<open>Version resolution without an apk\<close>

text \<open>
  Claim C5. In a working directory where neither \<^verbatim>\<open>packageName*.apk\<close> nor \<^verbatim>\<open>*.apk\<close> matches
  anything, version resolution returns normally, starts no tool, and sets the version to
  the current UTC time printed as \<^verbatim>\<open>YYYYMMDDHHMMSS\<close>, which is a well-formed timestamp of
  fourteen digits.
\<close>

theorem no_apk_gives_timestamp:
  assumes "glob s (pkg s @ ''*.apk'') = []" and "glob s ''*.apk'' = []"
    and "valid_datetime (utcnow e)"
  shows "get_version e s =
           (Normal, s\<lparr>pkg_version := strftime (utcnow e),
              logs := logs s @ [(INFO, ''getting version from apk file in current directory''),
                (WARNING, ''no apk found to extract version; falling back to timestamp'')]\<rparr>)
         \<and> valid_timestamp (pkg_version (snd (get_version e s)))
         \<and> length (pkg_version (snd (get_version e s))) = 14
         \<and> list_all is_digit (pkg_version (snd (get_version e s)))"
proof -
  have g: "get_version e s =
           (Normal, s\<lparr>pkg_version := strftime (utcnow e),
              logs := logs s @ [(INFO, ''getting version from apk file in current directory''),
                (WARNING, ''no apk found to extract version; falling back to timestamp'')]\<rparr>)"
    using assms(1,2) by (simp add: get_version_def version_candidates_def Let_def)
  have v: "valid_timestamp (strftime (utcnow e))"
    using assms(3) by (rule strftime_valid)
  show ?thesis
    using v by (simp add: g valid_timestamp_def)
qed

theorem no_apk_gives_timestamp_witness:
  "fst (get_version ex_env ex_start) = Normal
   \<and> pkg_version (snd (get_version ex_env ex_start)) = ''20240309070501''
   \<and> valid_timestamp (pkg_version (snd (get_version ex_env ex_start)))"
proof -
  have h1: "glob ex_start (pkg ex_start @ ''*.apk'') = []"
    by code_simp
  have h2: "glob ex_start ''*.apk'' = []"
    by code_simp
  have h3: "valid_datetime (utcnow ex_env)"
    by (simp add: valid_datetime_def ex_env_def ex_clock_def)
  have v: "strftime (utcnow ex_env) = ''20240309070501''"
    by code_simp
  note r = no_apk_gives_timestamp [OF h1 h2 h3]
  from r have a: "fst (get_version ex_env ex_start) = Normal"
    and b: "pkg_version (snd (get_version ex_env ex_start)) = strftime (utcnow ex_env)"
    by simp_all
  from r have c: "valid_timestamp (pkg_version (snd (get_version ex_env ex_start)))"
    by (rule conjunct2 [THEN conjunct1])
  show ?thesis
    using a b c by (simp add: v)
qed

section \<open>Which rebuild path is taken\<close>

lemma move_appends:
  "\<exists>cs ls. trace (snd (move a b s)) = trace s @ map Run cs \<and> logs (snd (move a b s)) = logs s @ ls"
  by (simp add: move_def Let_def)

lemma run_logged_appends:
  "\<exists>cs ls. trace (snd (run_logged e argv w s)) = trace s @ map Run cs
     \<and> logs (snd (run_logged e argv w s)) = logs s @ ls"
proof (cases "run e argv (cwd s) (fs s)")
  case Missing
  then have "trace (snd (run_logged e argv w s)) = trace s @ map Run [argv]"
    and "logs (snd (run_logged e argv w s)) = logs s @ []"
    by (simp_all add: run_logged_def subprocess_run_def)
  then show ?thesis by blast
next
  case (Ran rc out er F)
  then have "trace (snd (run_logged e argv w s)) = trace s @ map Run [argv]"
    and "logs (snd (run_logged e argv w s)) = logs s @ [(INFO, w @ '', ret='' @ str_int rc)]"
    by (simp_all add: run_logged_def subprocess_run_def)
  then show ?thesis by blast
qed

lemma andthen_appends:
  assumes f: "\<And>s. \<exists>cs ls. trace (snd (f s)) = trace s @ map Run cs \<and> logs (snd (f s)) = logs s @ ls"
    and g: "\<And>s. \<exists>cs ls. trace (snd (g s)) = trace s @ map Run cs \<and> logs (snd (g s)) = logs s @ ls"
  shows "\<exists>cs ls. trace (snd (andthen f g s)) = trace s @ map Run cs
           \<and> logs (snd (andthen f g s)) = logs s @ ls"
proof (cases "f s")
  case (Pair r s1)
  from f [of s] Pair obtain cs ls where
    1: "trace s1 = trace s @ map Run cs" "logs s1 = logs s @ ls" by auto
  show ?thesis
  proof (cases r)
    case Normal
    from g [of s1] obtain cs' ls' where
      2: "trace (snd (g s1)) = trace s1 @ map Run cs'" "logs (snd (g s1)) = logs s1 @ ls'"
      by auto
    have "trace (snd (andthen f g s)) = trace s @ map Run (cs @ cs')"
      and "logs (snd (andthen f g s)) = logs s @ (ls @ ls')"
      using Pair Normal 1 2 by (simp_all add: andthen_def)
    then show ?thesis by blast
  next
    case (Exit n)
    with Pair 1 show ?thesis by (auto simp: andthen_def)
  next
    case (Raise x)
    with Pair 1 show ?thesis by (auto simp: andthen_def)
  qed
qed

lemma quick_steps_append:
  "\<exists>cs ls. trace (snd (andthen (move a b)
        (andthen (run_logged e c1 w1) (andthen (run_logged e c2 w2)
          (andthen (run_logged e c3 w3) (move b a)))) s)) = trace s @ map Run cs
     \<and> logs (snd (andthen (move a b)
        (andthen (run_logged e c1 w1) (andthen (run_logged e c2 w2)
          (andthen (run_logged e c3 w3) (move b a)))) s)) = logs s @ ls"
  by (intro andthen_appends move_appends run_logged_appends)

text \<open>
  Claim C10. The quick path is taken exactly when the quick-rebuild flag is set and a
  file named \<^verbatim>\<open>{packageName}-{version}.patched.apk\<close>, with the version of this run, is in the
  working directory. Otherwise \<^verbatim>\<open>rebuild\<close> returns normally after handing the tree to the
  external recompiler, which is then the only command it starts; on the quick path it
  starts archive-tool processes only and never the recompiler.
\<close>

theorem rebuild_path_choice:
  "(\<not> (quick_rebuild s \<and> isfile s (newpkg s)) \<longrightarrow>
      rebuild e s =
        (Normal, s\<lparr>fs := snd (system e (apktool_build_cmd s) (cwd s) (fs s)),
           logs := logs s @ [(INFO, ''rebuilding '' @ pkg s @ ''.apk with apktool'')],
           trace := trace s @ [System (apktool_build_cmd s)]\<rparr>))
   \<and> (quick_rebuild s \<and> isfile s (newpkg s) \<longrightarrow>
      (\<exists>cs ls. trace (snd (rebuild e s)) = trace s @ map Run cs
         \<and> logs (snd (rebuild e s)) =
             logs s @ (INFO, ''rebuiling '' @ pkg s @ ''.apk quickly'') # ls))"
proof (intro conjI impI)
  assume "\<not> (quick_rebuild s \<and> isfile s (newpkg s))"
  then show "rebuild e s =
        (Normal, s\<lparr>fs := snd (system e (apktool_build_cmd s) (cwd s) (fs s)),
           logs := logs s @ [(INFO, ''rebuilding '' @ pkg s @ ''.apk with apktool'')],
           trace := trace s @ [System (apktool_build_cmd s)]\<rparr>)"
    by (auto simp add: rebuild_def os_system_def logging_def)
next
  assume c: "quick_rebuild s \<and> isfile s (newpkg s)"
  let ?s = "logging INFO (''rebuiling '' @ pkg s @ ''.apk quickly'') s"
  from quick_steps_append [of "newpkg s" "newzip s" e "delete_cmd e s" _ "add_cmd e s" _
      "rename_cmd e s" _ ?s] c
  show "\<exists>cs ls. trace (snd (rebuild e s)) = trace s @ map Run cs
         \<and> logs (snd (rebuild e s)) =
             logs s @ (INFO, ''rebuiling '' @ pkg s @ ''.apk quickly'') # ls"
    by (auto simp add: rebuild_def)
qed

theorem rebuild_path_choice_witness:
  "\<not> (quick_rebuild ex_built \<and> isfile ex_built (newpkg ex_built))
   \<and> trace (snd (rebuild ex_env ex_built)) = [System (apktool_build_cmd ex_built)]
   \<and> fst (rebuild ex_env ex_built) = Normal
   \<and> quick_rebuild ex_quick \<and> isfile ex_quick (newpkg ex_quick)
   \<and> (\<exists>cs. trace (snd (rebuild ex_env ex_quick)) = map Run cs)"
proof -
  have h1: "\<not> (quick_rebuild ex_built \<and> isfile ex_built (newpkg ex_built))"
    by code_simp
  have h2: "quick_rebuild ex_quick \<and> isfile ex_quick (newpkg ex_quick)"
    by code_simp
  have t: "trace ex_built = []" "trace ex_quick = []"
    by (simp_all add: ex_quick_def ex_built_def ex_start_def initial_state_def)
  show ?thesis
    using h1 h2 rebuild_path_choice [of ex_built ex_env] rebuild_path_choice [of ex_quick ex_env]
    by (auto simp add: t)
qed

section \<open>Matching and globbing\<close>

lemma fnmatch_nil_pat [simp]: "fnmatch n [] = (n = [])"
  by (cases n) simp_all

lemma fnmatch_star: "fnmatch n (CHR ''*'' # q) = (\<exists>k\<le>length n. fnmatch (drop k n) q)"
proof (induction n)
  case Nil
  then show ?case by simp
next
  case (Cons c cs)
  have "(\<exists>k\<le>length (c # cs). fnmatch (drop k (c # cs)) q)
        = (fnmatch (c # cs) q \<or> (\<exists>k\<le>length cs. fnmatch (drop k cs) q))"
  proof
    assume "\<exists>k\<le>length (c # cs). fnmatch (drop k (c # cs)) q"
    then obtain k where k: "k \<le> length (c # cs)" "fnmatch (drop k (c # cs)) q" by blast
    show "fnmatch (c # cs) q \<or> (\<exists>k\<le>length cs. fnmatch (drop k cs) q)"
    proof (cases k)
      case 0
      with k show ?thesis by simp
    next
      case (Suc j)
      with k have "j \<le> length cs" "fnmatch (drop j cs) q" by simp_all
      then show ?thesis by blast
    qed
  next
    assume "fnmatch (c # cs) q \<or> (\<exists>k\<le>length cs. fnmatch (drop k cs) q)"
    then show "\<exists>k\<le>length (c # cs). fnmatch (drop k (c # cs)) q"
    proof
      assume "fnmatch (c # cs) q"
      then have "fnmatch (drop 0 (c # cs)) q" by simp
      then show ?thesis by blast
    next
      assume "\<exists>k\<le>length cs. fnmatch (drop k cs) q"
      then obtain k where "k \<le> length cs" "fnmatch (drop k cs) q" by blast
      then have "Suc k \<le> length (c # cs)" "fnmatch (drop (Suc k) (c # cs)) q" by simp_all
      then show ?thesis by blast
    qed
  qed
  with Cons show ?case by simp
qed

lemma fnmatch_literal:
  "CHR ''*'' \<notin> set p \<Longrightarrow> fnmatch n (p @ q) = (prefix p n \<and> fnmatch (drop (length p) n) q)"
proof (induction p arbitrary: n)
  case Nil
  then show ?case by simp
next
  case (Cons a p)
  then show ?case by (cases n) auto
qed

lemma fnmatch_exact: "CHR ''*'' \<notin> set p \<Longrightarrow> fnmatch n p = (n = p)"
  using fnmatch_literal [of p n "[]"] by (auto simp: prefix_def)

lemma fnmatch_any [simp]: "fnmatch n ''*''"
  by (simp add: fnmatch_star) (rule exI [of _ "length n"], simp)


lemma fnmatch_star_suffix: "CHR ''*'' \<notin> set q \<Longrightarrow> fnmatch n (CHR ''*'' # q) = suffix q n"
proof -
  assume q: "CHR ''*'' \<notin> set q"
  have "(\<exists>k\<le>length n. drop k n = q) = suffix q n"
  proof
    assume "\<exists>k\<le>length n. drop k n = q"
    then obtain k where "drop k n = q" by blast
    then have "n = take k n @ q" by (metis append_take_drop_id)
    then show "suffix q n" by (rule suffixI)
  next
    assume "suffix q n"
    then obtain zs where "n = zs @ q" by (rule suffixE)
    then have "length zs \<le> length n" "drop (length zs) n = q" by simp_all
    then show "\<exists>k\<le>length n. drop k n = q" by blast
  qed
  with q show ?thesis by (simp add: fnmatch_star fnmatch_exact)
qed

lemma fnmatch_prefix_star_suffix:
  "CHR ''*'' \<notin> set p \<Longrightarrow> CHR ''*'' \<notin> set q \<Longrightarrow>
   fnmatch n (p @ CHR ''*'' # q) = (prefix p n \<and> suffix q (drop (length p) n))"
  by (simp add: fnmatch_literal fnmatch_star_suffix)









lemma path_split_plain: "CHR ''/'' \<notin> set p \<Longrightarrow> path_split p = ([], p)"
proof -
  assume a: "CHR ''/'' \<notin> set p"
  then have "\<forall>x\<in>set (rev p). x \<noteq> CHR ''/''" by auto
  then have tw: "takeWhile (\<lambda>c. c \<noteq> CHR ''/'') (rev p) = rev p"
    by (simp only: takeWhile_eq_all_conv)
  show ?thesis
    unfolding path_split_def Let_def tw by simp
qed


lemma glob_plain: "CHR ''/'' \<notin> set p \<Longrightarrow> glob s p = glob1 (listdir (fs s) (cwd s)) p"
  by (simp add: glob_def dirname_def basename_def path_split_plain)










lemma sort_is_Nil [simp]: "(sort (xs :: string list) = []) = (xs = [])"
proof -
  have "length (sort xs) = length xs" by simp
  then show ?thesis by (metis length_0_conv)
qed


lemma package_candidates_logging [simp]:
  "package_candidates (logging l m s) = package_candidates s"
  by (simp add: package_candidates_def packages_dir_def)



section \<open>Discovery of the package archive\<close>



section \<open>No archive in the packages directory\<close>




section \<open>The apk chosen for version resolution\<close>

text \<open>
  Claim C2 asks for the first file matching \<^verbatim>\<open>packageName*.apk\<close> whenever there is one.
  The script sorts the concatenation of both glob results, so an unrelated apk that sorts
  lower wins: with \<^verbatim>\<open>base.apk\<close> next to \<^verbatim>\<open>com.bilibili.AzurLane.apk\<close> the badging tool is
  run on \<^verbatim>\<open>base.apk\<close>.
\<close>

theorem version_candidate_ignores_prefix:
  "glob ex_built (pkg ex_built @ ''*.apk'') = [''com.bilibili.AzurLane.apk'']
   \<and> hd (version_candidates ex_built) = ''base.apk''
   \<and> trace (snd (get_version ex_env ex_built)) = [Run [''aapt'', ''dump'', ''badging'', ''base.apk'']]"
  by code_simp

section \<open>The version name reported by the badging tool\<close>

lemma key_length: "length version_key = 13"
  by (simp add: version_key_def)

lemma key_hd: "version_key ! 0 = CHR ''v''"
  by (simp add: version_key_def)

lemma key_no_overlap: "0 < j \<Longrightarrow> j < 13 \<Longrightarrow> version_key ! j \<noteq> CHR ''v''"
proof -
  assume "0 < j" "j < 13"
  then have "j \<in> set [1..<13]" by simp
  moreover have "\<forall>j\<in>set [1..<13]. version_key ! j \<noteq> CHR ''v''"
    by code_simp
  ultimately show ?thesis by blast
qed

lemma match_here_field:
  assumes "V \<noteq> []" and "quote \<notin> set V"
  shows "match_here (version_key @ V @ quote # post) = Some V"
proof -
  have "takeWhile (\<lambda>c. c \<noteq> quote) (V @ quote # post) = V @ takeWhile (\<lambda>c. c \<noteq> quote) (quote # post)"
    using assms(2) by (intro takeWhile_append2) auto
  then have "takeWhile (\<lambda>c. c \<noteq> quote) (V @ quote # post) = V" by simp
  then show ?thesis
    using assms(1) by (simp add: match_here_def)
qed

lemma key_not_earlier:
  assumes "prefix version_key (p @ version_key @ rest)"
  shows "p = [] \<or> prefix version_key p"
proof (cases "length p < 13")
  case False
  then have "length version_key \<le> length p" by (simp add: key_length)
  with assms have "prefix version_key p"
    by (metis prefix_length_prefix prefixI)
  then show ?thesis ..
next
  case True
  show ?thesis
  proof (cases "p = []")
    case True
    then show ?thesis ..
  next
    case False
    with True have j: "0 < length p" "length p < 13" by simp_all
    from assms have "take 13 (p @ version_key @ rest) = version_key"
      by (metis key_length prefix_def append_eq_conv_conj)
    then have "version_key ! length p = (p @ version_key @ rest) ! length p"
      using j by (metis nth_take)
    also have "\<dots> = version_key ! 0"
      by (simp add: nth_append key_length)
    finally have "version_key ! length p = CHR ''v''"
      by (simp add: key_hd)
    with key_no_overlap [OF j] show ?thesis by simp
  qed
qed

lemma search_first_field:
  assumes "\<not> sublist version_key pre" and "match_here (version_key @ rest) = Some V"
  shows "search_versionName (pre @ version_key @ rest) = Some V"
  using assms(1)
proof (induction pre)
  case Nil
  have "version_key @ rest \<noteq> []" by (simp add: version_key_def)
  then obtain c cs where "version_key @ rest = c # cs" by (cases "version_key @ rest") auto
  with assms(2) show ?case by simp
next
  case (Cons c cs)
  have "\<not> prefix version_key (c # cs)"
    using Cons.prems by (auto simp: sublist_Cons_right)
  with key_not_earlier [of "c # cs" rest] have "\<not> prefix version_key ((c # cs) @ version_key @ rest)"
    by blast
  then have "match_here (c # cs @ version_key @ rest) = None"
    by (simp add: match_here_def)
  moreover have "\<not> sublist version_key cs"
    using Cons.prems by (auto simp: sublist_Cons_right)
  ultimately show ?case
    using Cons.IH by simp
qed

lemma version_candidates_logging [simp]:
  "version_candidates (logging l m s) = version_candidates s"
  by (simp add: version_candidates_def)

lemma get_version_badging:
  assumes "version_candidates s \<noteq> []"
    and "run e [''aapt'', ''dump'', ''badging'', hd (version_candidates s)] (cwd s) (fs s)
           = Ran 0 out er F"
    and "search_versionName out = Some V"
  shows "get_version e s =
           (Normal, s\<lparr>fs := F, pkg_version := V,
              logs := logs s @
                [(INFO, ''getting version from apk file in current directory''),
                 (INFO, ''Found apk for version extraction: '' @ hd (version_candidates s)),
                 (INFO, ''Extracted versionName via aapt: '' @ V)],
              trace := trace s @ [Run [''aapt'', ''dump'', ''badging'', hd (version_candidates s)]]\<rparr>)"
  using assms by (simp add: get_version_def Let_def subprocess_run_def)

text \<open>
  Claim C6, as the code has it. The pattern asks for at least one character between the
  quotes, so a field \<^verbatim>\<open>versionName=''\<close> is not taken: the version is then not the empty
  string but the timestamp of the apk's modification time.
\<close>

theorem empty_version_name_counterexample:
  "version_candidates ex_built \<noteq> []
   \<and> run ex_env_aapt_empty [''aapt'', ''dump'', ''badging'', hd (version_candidates ex_built)]
        (cwd ex_built) (fs ex_built)
      = Ran 0 (ex_badging_pre @ version_key @ [] @ quote # ex_badging_post) [] ex_tree
   \<and> pkg_version (snd (get_version ex_env_aapt_empty ex_built)) = ''20231130120000''
   \<and> pkg_version (snd (get_version ex_env_aapt_empty ex_built)) \<noteq> []"
  by code_simp

text \<open>
  Claim C6, amended. When an apk is found, the badging tool runs on it with return code 0
  and the first \<^verbatim>\<open>versionName='\<close> in its output is followed by a non-empty \<open>V\<close> and a closing
  quote, the resolved version is exactly \<open>V\<close>. The result is the same whatever the
  modification times and the clock are: neither fallback is consulted.
\<close>

theorem badging_version_used:
  assumes "version_candidates s \<noteq> []"
    and "run e [''aapt'', ''dump'', ''badging'', hd (version_candidates s)] (cwd s) (fs s)
           = Ran 0 (pre @ version_key @ V @ quote # post) er F"
    and "V \<noteq> []" and "quote \<notin> set V" and "\<not> sublist version_key pre"
  shows "get_version e s =
           (Normal, s\<lparr>fs := F, pkg_version := V,
              logs := logs s @
                [(INFO, ''getting version from apk file in current directory''),
                 (INFO, ''Found apk for version extraction: '' @ hd (version_candidates s)),
                 (INFO, ''Extracted versionName via aapt: '' @ V)],
              trace := trace s @ [Run [''aapt'', ''dump'', ''badging'', hd (version_candidates s)]]\<rparr>)
         \<and> (\<forall>m n. get_version (e\<lparr>utcnow := n, mtime_utc := m\<rparr>) s = get_version e s)"
proof -
  have f: "search_versionName (pre @ version_key @ V @ quote # post) = Some V"
    using assms(5) match_here_field [OF assms(3,4)] by (rule search_first_field)
  note a = get_version_badging [OF assms(1) assms(2) f]
  have "get_version (e\<lparr>utcnow := n, mtime_utc := m\<rparr>) s = get_version e s" for m n
  proof -
    have "run (e\<lparr>utcnow := n, mtime_utc := m\<rparr>)
            [''aapt'', ''dump'', ''badging'', hd (version_candidates s)] (cwd s) (fs s)
          = Ran 0 (pre @ version_key @ V @ quote # post) er F"
      using assms(2) by simp
    from get_version_badging [OF assms(1) this f] a show ?thesis by simp
  qed
  with a show ?thesis by blast
qed

theorem badging_version_used_witness:
  "version_candidates ex_built \<noteq> []
   \<and> \<not> sublist version_key ex_badging_pre
   \<and> mtime_utc ex_env_aapt ''base.apk'' (cwd ex_built) (fs ex_built) = Some ex_mtime
   \<and> fst (get_version ex_env_aapt ex_built) = Normal
   \<and> pkg_version (snd (get_version ex_env_aapt ex_built)) = ''1.2.3''"
proof -
  have h1: "version_candidates ex_built \<noteq> []"
    by code_simp
  have h2: "run ex_env_aapt [''aapt'', ''dump'', ''badging'', hd (version_candidates ex_built)]
              (cwd ex_built) (fs ex_built)
            = Ran 0 (ex_badging_pre @ version_key @ ''1.2.3'' @ quote # ex_badging_post) [] ex_tree"
    by (simp add: ex_env_aapt_def ex_badging_def ex_built_def ex_start_def initial_state_def)
  have h3: "''1.2.3'' \<noteq> []" by simp
  have h4: "quote \<notin> set ''1.2.3''" by (simp add: quote_def)
  have h5: "\<not> sublist version_key ex_badging_pre"
    by code_simp
  have m: "mtime_utc ex_env_aapt ''base.apk'' (cwd ex_built) (fs ex_built) = Some ex_mtime"
    by (simp add: ex_env_aapt_def)
  from badging_version_used [OF h1 h2 h3 h4 h5]
  have "fst (get_version ex_env_aapt ex_built) = Normal"
    and "pkg_version (snd (get_version ex_env_aapt ex_built)) = ''1.2.3''"
    by simp_all
  with h1 h5 m show ?thesis by simp
qed

section \<open>The quick rebuild\<close>

lemma andthen_assoc: "andthen (andthen f g) h = andthen f (andthen g h)"
  by (rule ext) (simp add: andthen_def split: prod.splits outcome.splits)

lemma main_split:
  "main e a b s0 =
     andthen (before_rebuild e) (andthen (rebuild e) (after_rebuild e))
       (s0\<lparr>skip := a, quick_rebuild := b\<rparr>)"
  by (simp only: main_def before_rebuild_def after_rebuild_def andthen_assoc)

lemma isfile_exists: "isfile s p \<Longrightarrow> map_of (fs s) (abspath s p) \<noteq> None"
  by (auto simp: isfile_def split: option.splits)

lemma move_plain:
  assumes "map_of (fs s) (abspath s src) \<noteq> None" and "\<not> isdir s dst"
  shows "move src dst s = (Normal, s\<lparr>fs := rename_tree (abspath s src) (abspath s dst) (fs s)\<rparr>)"
  using assms by (simp add: move_def Let_def)

lemma run_logged_Ran:
  assumes "run e argv (cwd s) (fs s) = Ran rc out er F"
  shows "run_logged e argv w s =
           (Normal, s\<lparr>fs := F, logs := logs s @ [(INFO, w @ '', ret='' @ str_int rc)],
              trace := trace s @ [Run argv]\<rparr>)"
  using assms by (simp add: run_logged_def subprocess_run_def logging_def)

lemma quick_steps:
  assumes "quick_rebuild s" and "isfile s (newpkg s)" and "\<not> isdir s (newzip s)"
    and "run e (delete_cmd e s) (cwd s)
           (rename_tree (abspath s (newpkg s)) (abspath s (newzip s)) (fs s)) = Ran r1 o1 e1 F1"
    and "run e (add_cmd e s) (cwd s) F1 = Ran r2 o2 e2 F2"
    and "run e (rename_cmd e s) (cwd s) F2 = Ran r3 o3 e3 F3"
  shows "rebuild e s =
           move (newzip s) (newpkg s)
             (s\<lparr>fs := F3,
                logs := logs s @
                  [(INFO, ''rebuiling '' @ pkg s @ ''.apk quickly''),
                   (INFO, ''deleting libs in archive, ret='' @ str_int r1),
                   (INFO, ''adding libs to archive, ret='' @ str_int r2),
                   (INFO, ''renaming libs in archive, ret='' @ str_int r3)],
                trace := trace s @
                  [Run (delete_cmd e s), Run (add_cmd e s), Run (rename_cmd e s)]\<rparr>)"
proof -
  let ?s0 = "logging INFO (''rebuiling '' @ pkg s @ ''.apk quickly'') s"
  have m: "move (newpkg s) (newzip s) ?s0 =
      (Normal, ?s0\<lparr>fs := rename_tree (abspath s (newpkg s)) (abspath s (newzip s)) (fs s)\<rparr>)"
    using isfile_exists [OF assms(2)] assms(3) move_plain [of ?s0 "newpkg s" "newzip s"]
    by simp
  let ?s1 = "?s0\<lparr>fs := rename_tree (abspath s (newpkg s)) (abspath s (newzip s)) (fs s)\<rparr>"
  have d: "run_logged e (delete_cmd e s) ''deleting libs in archive'' ?s1 =
      (Normal, ?s1\<lparr>fs := F1,
         logs := logs ?s1 @ [(INFO, ''deleting libs in archive'' @ '', ret='' @ str_int r1)],
         trace := trace ?s1 @ [Run (delete_cmd e s)]\<rparr>)"
    using assms(4) by (intro run_logged_Ran) simp
  let ?s2 = "?s1\<lparr>fs := F1,
         logs := logs ?s1 @ [(INFO, ''deleting libs in archive'' @ '', ret='' @ str_int r1)],
         trace := trace ?s1 @ [Run (delete_cmd e s)]\<rparr>"
  have a: "run_logged e (add_cmd e s) ''adding libs to archive'' ?s2 =
      (Normal, ?s2\<lparr>fs := F2,
         logs := logs ?s2 @ [(INFO, ''adding libs to archive'' @ '', ret='' @ str_int r2)],
         trace := trace ?s2 @ [Run (add_cmd e s)]\<rparr>)"
    using assms(5) by (intro run_logged_Ran) simp
  let ?s3 = "?s2\<lparr>fs := F2,
         logs := logs ?s2 @ [(INFO, ''adding libs to archive'' @ '', ret='' @ str_int r2)],
         trace := trace ?s2 @ [Run (add_cmd e s)]\<rparr>"
  have r: "run_logged e (rename_cmd e s) ''renaming libs in archive'' ?s3 =
      (Normal, ?s3\<lparr>fs := F3,
         logs := logs ?s3 @ [(INFO, ''renaming libs in archive'' @ '', ret='' @ str_int r3)],
         trace := trace ?s3 @ [Run (rename_cmd e s)]\<rparr>)"
    using assms(6) by (intro run_logged_Ran) simp
  let ?s4 = "?s3\<lparr>fs := F3,
         logs := logs ?s3 @ [(INFO, ''renaming libs in archive'' @ '', ret='' @ str_int r3)],
         trace := trace ?s3 @ [Run (rename_cmd e s)]\<rparr>"
  have "rebuild e s =
      andthen (move (newpkg s) (newzip s))
         (andthen (run_logged e (delete_cmd e s) ''deleting libs in archive'')
           (andthen (run_logged e (add_cmd e s) ''adding libs to archive'')
             (andthen (run_logged e (rename_cmd e s) ''renaming libs in archive'')
               (move (newzip s) (newpkg s))))) ?s0"
    using assms(1,2) by (simp only: rebuild_def simp_thms if_True)
  also have "\<dots> =
      andthen (run_logged e (delete_cmd e s) ''deleting libs in archive'')
           (andthen (run_logged e (add_cmd e s) ''adding libs to archive'')
             (andthen (run_logged e (rename_cmd e s) ''renaming libs in archive'')
               (move (newzip s) (newpkg s)))) ?s1"
    by (simp only: andthen_def m prod.case outcome.case)
  also have "\<dots> =
      andthen (run_logged e (add_cmd e s) ''adding libs to archive'')
             (andthen (run_logged e (rename_cmd e s) ''renaming libs in archive'')
               (move (newzip s) (newpkg s))) ?s2"
    by (simp only: andthen_def d prod.case outcome.case)
  also have "\<dots> =
      andthen (run_logged e (rename_cmd e s) ''renaming libs in archive'')
               (move (newzip s) (newpkg s)) ?s3"
    by (simp only: andthen_def a prod.case outcome.case)
  also have "\<dots> = move (newzip s) (newpkg s) ?s4"
    by (simp only: andthen_def r prod.case outcome.case)
  finally show ?thesis
    by (simp add: logging_def)
qed

lemma move_outcome:
  "fs t = fs t' \<Longrightarrow> cwd t = cwd t' \<Longrightarrow> fst (move a b t) = fst (move a b t')"
  by (simp add: move_def Let_def isdir_def abspath_def)

text \<open>
  Claim C9. On the quick path the return codes of the three archive-tool calls (delete,
  add, rename) only appear in the log. Whatever they are, all three calls are made in
  order and the rename back to the apk name is then carried out; the way \<^verbatim>\<open>rebuild\<close> ends is
  that of this rename on the tree the tools left, so it does not depend on the return
  codes. When the tools have left the container in place, \<^verbatim>\<open>rebuild\<close> returns normally
  and a run that had reached it goes on with signing.
\<close>

theorem archive_tool_status_ignored:
  assumes "quick_rebuild s" and "isfile s (newpkg s)" and "\<not> isdir s (newzip s)"
    and "run e (delete_cmd e s) (cwd s)
           (rename_tree (abspath s (newpkg s)) (abspath s (newzip s)) (fs s)) = Ran r1 o1 e1 F1"
    and "run e (add_cmd e s) (cwd s) F1 = Ran r2 o2 e2 F2"
    and "run e (rename_cmd e s) (cwd s) F2 = Ran r3 o3 e3 F3"
  shows "rebuild e s =
           move (newzip s) (newpkg s)
             (s\<lparr>fs := F3,
                logs := logs s @
                  [(INFO, ''rebuiling '' @ pkg s @ ''.apk quickly''),
                   (INFO, ''deleting libs in archive, ret='' @ str_int r1),
                   (INFO, ''adding libs to archive, ret='' @ str_int r2),
                   (INFO, ''renaming libs in archive, ret='' @ str_int r3)],
                trace := trace s @
                  [Run (delete_cmd e s), Run (add_cmd e s), Run (rename_cmd e s)]\<rparr>)
         \<and> fst (rebuild e s) = fst (move (newzip s) (newpkg s) (s\<lparr>fs := F3\<rparr>))
         \<and> (map_of F3 (abspath s (newzip s)) \<noteq> None
              \<and> map_of F3 (abspath s (newpkg s)) \<noteq> Some Dir \<longrightarrow>
             (\<forall>s0 a b. before_rebuild e (s0\<lparr>skip := a, quick_rebuild := b\<rparr>) = (Normal, s) \<longrightarrow>
                main e a b s0 =
                  after_rebuild e
                    (s\<lparr>fs := rename_tree (abspath s (newzip s)) (abspath s (newpkg s)) F3,
                       logs := logs s @
                         [(INFO, ''rebuiling '' @ pkg s @ ''.apk quickly''),
                          (INFO, ''deleting libs in archive, ret='' @ str_int r1),
                          (INFO, ''adding libs to archive, ret='' @ str_int r2),
                          (INFO, ''renaming libs in archive, ret='' @ str_int r3)],
                       trace := trace s @
                         [Run (delete_cmd e s), Run (add_cmd e s), Run (rename_cmd e s)]\<rparr>)))"
proof -
  let ?s3 = "s\<lparr>fs := F3,
                logs := logs s @
                  [(INFO, ''rebuiling '' @ pkg s @ ''.apk quickly''),
                   (INFO, ''deleting libs in archive, ret='' @ str_int r1),
                   (INFO, ''adding libs to archive, ret='' @ str_int r2),
                   (INFO, ''renaming libs in archive, ret='' @ str_int r3)],
                trace := trace s @
                  [Run (delete_cmd e s), Run (add_cmd e s), Run (rename_cmd e s)]\<rparr>"
  have q: "rebuild e s = move (newzip s) (newpkg s) ?s3"
    using assms by (rule quick_steps)
  have o: "fst (rebuild e s) = fst (move (newzip s) (newpkg s) (s\<lparr>fs := F3\<rparr>))"
    unfolding q by (rule move_outcome) simp_all
  let ?s4 = "s\<lparr>fs := rename_tree (abspath s (newzip s)) (abspath s (newpkg s)) F3,
                logs := logs s @
                  [(INFO, ''rebuiling '' @ pkg s @ ''.apk quickly''),
                   (INFO, ''deleting libs in archive, ret='' @ str_int r1),
                   (INFO, ''adding libs to archive, ret='' @ str_int r2),
                   (INFO, ''renaming libs in archive, ret='' @ str_int r3)],
                trace := trace s @
                  [Run (delete_cmd e s), Run (add_cmd e s), Run (rename_cmd e s)]\<rparr>"
  have k: "main e a b s0 = after_rebuild e ?s4"
    if c: "map_of F3 (abspath s (newzip s)) \<noteq> None"
          "map_of F3 (abspath s (newpkg s)) \<noteq> Some Dir"
      and b: "before_rebuild e (s0\<lparr>skip := a, quick_rebuild := b\<rparr>) = (Normal, s)"
    for s0 a b
  proof -
    have "move (newzip s) (newpkg s) ?s3 =
            (Normal, ?s3\<lparr>fs := rename_tree (abspath ?s3 (newzip s)) (abspath ?s3 (newpkg s)) (fs ?s3)\<rparr>)"
      using c by (intro move_plain) (simp_all add: isdir_def abspath_def)
    then have r: "rebuild e s = (Normal, ?s4)"
      by (simp add: q abspath_def)
    show ?thesis
      by (simp only: main_split andthen_def b r prod.case outcome.case)
  qed
  show ?thesis
  proof (intro conjI impI allI)
    show "rebuild e s = move (newzip s) (newpkg s) ?s3" by (rule q)
    show "fst (rebuild e s) = fst (move (newzip s) (newpkg s) (s\<lparr>fs := F3\<rparr>))" by (rule o)
    fix s0 a b
    assume "map_of F3 (abspath s (newzip s)) \<noteq> None
              \<and> map_of F3 (abspath s (newpkg s)) \<noteq> Some Dir"
      and "before_rebuild e (s0\<lparr>skip := a, quick_rebuild := b\<rparr>) = (Normal, s)"
    then show "main e a b s0 = after_rebuild e ?s4"
      using k by blast
  qed
qed

lemma build_ok:
  assumes "map_of (fs s) (abspath s ''PerseusLib'') = Some Dir"
    and "run e (ndk_cmd e False) (abspath s ''PerseusLib'') (fs s) = Ran 0 out er F"
  shows "build_perseus_lib e False s =
           (Normal, s\<lparr>fs := F, cwd := dirname (abspath s ''PerseusLib''),
              logs := logs s @ [(INFO, ''building perseus libs'')],
              trace := trace s @ [Run (ndk_cmd e False)]\<rparr>)"
  using assms
  by (simp add: build_perseus_lib_def chdir_def subprocess_run_def Let_def)

lemma mkcd_existing:
  assumes "map_of (fs s) (abspath s d) = Some Dir" and "d \<noteq> ''..''"
  shows "mkcd d s = (Normal, s\<lparr>cwd := abspath s d\<rparr>)"
  using assms by (simp add: mkcd_def isdir_def chdir_def)

lemma extract_skips:
  "skip s \<Longrightarrow> isfile s (pkg s @ ''.apk'') \<Longrightarrow>
   extract_from_packages e s = (Normal, logging INFO (pkg s @ ''.apk already exists, skipping'') s)"
  by (simp add: extract_from_packages_def)

lemma decompile_skips:
  "skip s \<Longrightarrow> isdir s (pkg s) \<Longrightarrow>
   decompile_apk e s = (Normal, logging INFO (pkg s @ ''.apk is already decompiled, skipping'') s)"
  by (simp add: decompile_apk_def)

lemma ex_reach:
  "before_rebuild ex_env_7zz_fails (ex_rerun_start\<lparr>skip := True, quick_rebuild := True\<rparr>)
     = (Normal, ex_reached)"
proof -
  let ?e = ex_env_7zz_fails
  define s0 where "s0 = ex_rerun_start\<lparr>skip := True, quick_rebuild := True\<rparr>"
  have s0: "fs s0 = ex_rerun_tree" "cwd s0 = ''/w''" "rootdir s0 = ''/w''"
    "pkg s0 = ''com.bilibili.AzurLane''" "skip s0" "logs s0 = []" "trace s0 = []"
    by (simp_all add: s0_def ex_rerun_start_def initial_state_def)
  have ru: "run ?e argv d F = Ran 0 ex_badging [] F" if "take 1 argv \<noteq> [''/w/bin/7zz'']" for argv d F
    using that by (simp add: ex_env_7zz_fails_def)
  have t1: "map_of ex_rerun_tree ''/w/PerseusLib'' = Some Dir"
    "map_of ex_rerun_tree ''/w/apk_build'' = Some Dir"
    "map_of ex_rerun_tree ''/w/apk_build/com.bilibili.AzurLane.apk'' = Some (File (Raw [5]))"
    "map_of ex_rerun_tree ''/w/apk_build/com.bilibili.AzurLane'' = Some Dir"
    by code_simp+
  have d1: "dirname ''/w/PerseusLib'' = ''/w''"
    by code_simp
  define s1 where "s1 = s0\<lparr>logs := [(INFO, ''building perseus libs'')],
     trace := [Run (ndk_cmd ?e False)]\<rparr>"
  have n: "take 1 (ndk_cmd ?e False) \<noteq> [''/w/bin/7zz'']"
    by (simp add: ndk_cmd_def)
  have b1: "build_perseus_lib ?e False s0 = (Normal, s1)"
    using build_ok [of s0 ?e ex_badging "[]" "fs s0"]
    by (simp add: abspath_def join_def s0 t1 ru [OF n] d1 s1_def)
  define s2 where "s2 = s1\<lparr>cwd := ''/w/apk_build''\<rparr>"
  have b2: "mkcd ''apk_build'' s1 = (Normal, s2)"
    using mkcd_existing [of s1 "''apk_build''"]
    by (simp add: abspath_def join_def s1_def s0 t1 s2_def)
  define s3 where "s3 = logging INFO (pkg s2 @ ''.apk already exists, skipping'') s2"
  have b3: "extract_from_packages ?e s2 = (Normal, s3)"
    unfolding s3_def
    by (rule extract_skips) (simp_all add: s2_def s1_def s0 isfile_def abspath_def join_def t1)
  have vc: "hd (version_candidates s3) = ''com.bilibili.AzurLane-1.2.3.patched.apk''"
    "version_candidates s3 \<noteq> []"
    unfolding s3_def s2_def s1_def s0_def by code_simp+
  have sv: "search_versionName ex_badging = Some ''1.2.3''"
    by code_simp
  define s4 where "s4 = s3\<lparr>pkg_version := ''1.2.3'',
     logs := logs s3 @
       [(INFO, ''getting version from apk file in current directory''),
        (INFO, ''Found apk for version extraction: com.bilibili.AzurLane-1.2.3.patched.apk''),
        (INFO, ''Extracted versionName via aapt: 1.2.3'')],
     trace := trace s3 @ [Run [''aapt'', ''dump'', ''badging'', ''com.bilibili.AzurLane-1.2.3.patched.apk'']]\<rparr>"
  have "run ?e [''aapt'', ''dump'', ''badging'', hd (version_candidates s3)] (cwd s3) (fs s3)
          = Ran 0 ex_badging [] (fs s3)"
    by (rule ru) simp
  from get_version_badging [OF vc(2) this sv]
  have b4: "get_version ?e s3 = (Normal, s4)"
    by (simp add: vc(1) s4_def)
  define s5 where "s5 = logging INFO (pkg s4 @ ''.apk is already decompiled, skipping'') s4"
  have b5: "decompile_apk ?e s4 = (Normal, s5)"
    unfolding s5_def
    by (rule decompile_skips)
      (simp_all add: s4_def s3_def s2_def s1_def s0 isdir_def abspath_def join_def t1)
  have b6: "copy_perseus_libs ?e s5 =
      (Normal, bbox ?e (''sh -c '' @ [CHR 0x22] @ ''cp -r ../PerseusLib/src/libs/* '' @ pkg s5 @
          ''/lib'' @ [CHR 0x22]) (logging INFO ''copying Perseus libs'' s5))"
    by (simp add: copy_perseus_libs_def)
  define s6 where "s6 = bbox ?e (''sh -c '' @ [CHR 0x22] @ ''cp -r ../PerseusLib/src/libs/* '' @ pkg s5 @
          ''/lib'' @ [CHR 0x22]) (logging INFO ''copying Perseus libs'' s5)"
  have j8: "str_nat 8 = ''8''"
    by code_simp
  have b7: "patch ?e s6 = (Normal, ex_reached)"
    by (simp add: j8 patch_def bbox_def os_system_def Let_def is_windows_def ex_env_7zz_fails_def
        ex_env_def s6_def s5_def s4_def s3_def s2_def s1_def s0_def ex_rerun_start_def
        initial_state_def ex_reached_def ex_cp_cmd_def join_def logging_def ndk_cmd_def)
  show ?thesis
    unfolding before_rebuild_def s0_def [symmetric]
    by (simp only: andthen_def b1 b2 b3 b4 b5 b6 [folded s6_def] b7 prod.case outcome.case)
qed

theorem archive_tool_status_ignored_witness:
  "fst (rebuild ex_env_7zz_fails ex_reached) = Normal
   \<and> logs (snd (rebuild ex_env_7zz_fails ex_reached)) =
       logs ex_reached @
         [(INFO, ''rebuiling com.bilibili.AzurLane.apk quickly''),
          (INFO, ''deleting libs in archive, ret=2''),
          (INFO, ''adding libs to archive, ret=2''),
          (INFO, ''renaming libs in archive, ret=2'')]
   \<and> trace (snd (rebuild ex_env_7zz_fails ex_reached)) =
       trace ex_reached @ [Run (delete_cmd ex_env_7zz_fails ex_reached),
         Run (add_cmd ex_env_7zz_fails ex_reached), Run (rename_cmd ex_env_7zz_fails ex_reached)]
   \<and> main ex_env_7zz_fails True True ex_rerun_start =
       after_rebuild ex_env_7zz_fails (snd (rebuild ex_env_7zz_fails ex_reached))"
proof -
  let ?e = ex_env_7zz_fails and ?s = ex_reached
  let ?A = "abspath ?s (newpkg ?s)" and ?Z = "abspath ?s (newzip ?s)"
  let ?F = "rename_tree ?A ?Z (fs ?s)"
  have h1: "quick_rebuild ?s"
    by (simp add: ex_reached_def)
  have h2: "isfile ?s (newpkg ?s)"
    by code_simp
  have h3: "\<not> isdir ?s (newzip ?s)"
    by code_simp
  have x: "executable_path ?e ?s ''7zz'' True = ''/w/bin/7zz''"
    by code_simp
  have ru: "run ?e (''/w/bin/7zz'' # rest) d F = Ran 2 [] [] F" for rest d F
    by (simp add: ex_env_7zz_fails_def)
  have h4: "run ?e (delete_cmd ?e ?s) (cwd ?s) ?F = Ran 2 [] [] ?F"
    by (simp only: delete_cmd_def x append_Cons ru)
  have h5: "run ?e (add_cmd ?e ?s) (cwd ?s) ?F = Ran 2 [] [] ?F"
    by (simp only: add_cmd_def x append_Cons ru)
  have h6: "run ?e (rename_cmd ?e ?s) (cwd ?s) ?F = Ran 2 [] [] ?F"
    by (simp only: rename_cmd_def x append_Cons ru)
  have c: "map_of ?F ?Z \<noteq> None \<and> map_of ?F ?A \<noteq> Some Dir"
    by code_simp
  have r2: "str_int 2 = ''2''" "pkg ?s = ''com.bilibili.AzurLane''"
    by code_simp+
  note r = archive_tool_status_ignored [OF h1 h2 h3 h4 h5 h6]
  let ?s3 = "?s\<lparr>fs := ?F,
                logs := logs ?s @
                  [(INFO, ''rebuiling '' @ pkg ?s @ ''.apk quickly''),
                   (INFO, ''deleting libs in archive, ret='' @ str_int 2),
                   (INFO, ''adding libs to archive, ret='' @ str_int 2),
                   (INFO, ''renaming libs in archive, ret='' @ str_int 2)],
                trace := trace ?s @
                  [Run (delete_cmd ?e ?s), Run (add_cmd ?e ?s), Run (rename_cmd ?e ?s)]\<rparr>"
  from r have q: "rebuild ?e ?s = move (newzip ?s) (newpkg ?s) ?s3"
    by (rule conjunct1)
  have mv: "move (newzip ?s) (newpkg ?s) ?s3 =
      (Normal, ?s3\<lparr>fs := rename_tree (abspath ?s3 (newzip ?s)) (abspath ?s3 (newpkg ?s)) (fs ?s3)\<rparr>)"
    using c by (intro move_plain) (simp_all add: isdir_def abspath_def)
  from r c ex_reach have m: "main ?e True True ex_rerun_start =
      after_rebuild ?e
        (?s\<lparr>fs := rename_tree ?Z ?A ?F,
            logs := logs ?s @
              [(INFO, ''rebuiling '' @ pkg ?s @ ''.apk quickly''),
               (INFO, ''deleting libs in archive, ret='' @ str_int 2),
               (INFO, ''adding libs to archive, ret='' @ str_int 2),
               (INFO, ''renaming libs in archive, ret='' @ str_int 2)],
            trace := trace ?s @
              [Run (delete_cmd ?e ?s), Run (add_cmd ?e ?s), Run (rename_cmd ?e ?s)]\<rparr>)"
    by blast
  have rs: "rebuild ?e ?s =
      (Normal, ?s3\<lparr>fs := rename_tree (abspath ?s3 (newzip ?s)) (abspath ?s3 (newpkg ?s)) (fs ?s3)\<rparr>)"
    by (simp only: q mv)
  have 1: "fst (rebuild ?e ?s) = Normal"
    by (simp add: rs)
  have 2: "logs (snd (rebuild ?e ?s)) = logs ?s @
         [(INFO, ''rebuiling com.bilibili.AzurLane.apk quickly''),
          (INFO, ''deleting libs in archive, ret=2''),
          (INFO, ''adding libs to archive, ret=2''),
          (INFO, ''renaming libs in archive, ret=2'')]"
    by (simp add: rs r2)
  have 3: "trace (snd (rebuild ?e ?s)) =
       trace ?s @ [Run (delete_cmd ?e ?s), Run (add_cmd ?e ?s), Run (rename_cmd ?e ?s)]"
    by (simp add: rs)
  have "snd (rebuild ?e ?s) =
        ?s\<lparr>fs := rename_tree ?Z ?A ?F,
            logs := logs ?s @
              [(INFO, ''rebuiling '' @ pkg ?s @ ''.apk quickly''),
               (INFO, ''deleting libs in archive, ret='' @ str_int 2),
               (INFO, ''adding libs to archive, ret='' @ str_int 2),
               (INFO, ''renaming libs in archive, ret='' @ str_int 2)],
            trace := trace ?s @
              [Run (delete_cmd ?e ?s), Run (add_cmd ?e ?s), Run (rename_cmd ?e ?s)]\<rparr>"
    unfolding rs snd_conv by (intro state.equality) (simp_all add: abspath_def)
  then have 4: "main ?e True True ex_rerun_start = after_rebuild ?e (snd (rebuild ?e ?s))"
    by (simp only: m)
  from 1 2 3 4 show ?thesis by blast
qed

end
